theory Spec2Isabelle
  imports Complex_Main
begin

section \<open>Conventions of the embedding\<close>

text \<open>
  The Python sources are embedded function by function.  A tensor or array of
  numbers is a list of numbers (one list per row for a matrix), an exception is
  a value of type \<open>error\<close> returned on the left of a sum, and a method that
  mutates its object takes the object and returns the updated one.  A
  number is the real number that the float holds.  The rounding of floats is
  modelled where a statement depends on it: the rows of the replay buffer are
  stored in single precision, and \<open>reduce_epsilon\<close> computes in double
  precision.  The other computations are taken over the reals.
\<close>

datatype error =
  AssertionError | IndexError | RuntimeError | TypeError | ValueError | ZeroDivisionError

section \<open>Rounding\<close>

text \<open>Python's \<open>round\<close> of a number to an integer: halves go to the even neighbour.\<close>

definition py_round :: "real \<Rightarrow> int" where
  "py_round x =
     (let f = \<lfloor>x\<rfloor>; d = x - of_int f
      in if d < 1 / 2 then f else if 1 / 2 < d then f + 1
         else if even f then f else f + 1)"

text \<open>
  The rounding of IEEE 754 to the nearest float, halves to the even
  significand: \<open>float64\<close> to double precision (Python's \<open>float\<close>, a
  significand of 53 bits), \<open>float32\<close> to single precision (\<open>torch.float32\<close>,
  24 bits).  \<open>binade x\<close> is the exponent \<open>e\<close> with \<open>2^e \<le> |x| < 2^(e+1)\<close>; the
  spacing of the doubles around \<open>x\<close> is \<open>2^(e - 52)\<close>, and \<open>2^-1074\<close> below the
  normal range; the spacing of the single-precision floats is \<open>2^(e - 23)\<close>,
  and \<open>2^-149\<close> below the normal range.  (Values beyond the largest float of
  the format, which become infinite, are not covered.)
\<close>

definition binade :: "real \<Rightarrow> int" where
  "binade x = \<lfloor>log 2 \<bar>x\<bar>\<rfloor>"

definition float64 :: "real \<Rightarrow> real" where
  "float64 x =
     (if x = 0 then 0
      else let ulp = 2 powi (max (binade x - 52) (- 1074))
           in real_of_int (py_round (x / ulp)) * ulp)"

definition float32 :: "real \<Rightarrow> real" where
  "float32 x =
     (if x = 0 then 0
      else let ulp = 2 powi (max (binade x - 23) (- 149))
           in real_of_int (py_round (x / ulp)) * ulp)"

section \<open>envs/mo_highway_env.py: the reward of MOHighwayEnv\<close>

text \<open>The entries of \<open>self.config\<close> that \<open>_reward\<close> and \<open>_rewards\<close> read.\<close>

record config =
  collision_reward :: real
  right_lane_reward :: real
  high_speed_reward :: real
  lane_change_reward :: real
  energy_consumption_reward :: real
  reward_speed_range :: "real \<times> real"
  normalize_reward :: bool

definition default_config :: config where
  "default_config =
     \<lparr>collision_reward = -1, right_lane_reward = 0.2, high_speed_reward = 1,
      lane_change_reward = 0, energy_consumption_reward = 1,
      reward_speed_range = (20, 30), normalize_reward = True\<rparr>"

text \<open>
  What \<open>_rewards\<close> reads of the ego vehicle and the road: \<open>vehicle.crashed\<close>,
  \<open>vehicle.speed\<close>, \<open>vehicle.heading\<close>, the lane number
  \<open>target_lane_index[2]\<close> and \<open>len(neighbours)\<close>, the number of lanes beside
  each other on the vehicle's road segment.
\<close>

record ego =
  crashed :: bool
  speed :: real
  heading :: real
  lane :: nat
  side_lanes :: nat

text \<open>
  \<open>highway_env.utils.lmap(v, x, y)\<close>, the linear map of the interval \<open>x\<close> onto
  the interval \<open>y\<close>: \<^verbatim>\<open>y[0] + (v - x[0]) * (y[1] - y[0]) / (x[1] - x[0])\<close>.
  It is meant for \<open>x[0] \<noteq> x[1]\<close> only.
\<close>

definition lmap :: "real \<Rightarrow> real \<times> real \<Rightarrow> real \<times> real \<Rightarrow> real" where
  "lmap v x y = fst y + (v - fst x) * (snd y - fst y) / (snd x - fst x)"

text \<open>\<open>np.clip(v, lo, hi)\<close>\<close>

definition clip :: "real \<Rightarrow> real \<Rightarrow> real \<Rightarrow> real" where
  "clip v lo hi = min (max v lo) hi"

text \<open>The dictionary returned by \<open>_rewards\<close>, one field per key.\<close>

record reward_terms =
  collision_term :: real
  right_lane_term :: real
  high_speed_term :: real
  energy_consumption_term :: real

text \<open>
  \<open>MOHighwayEnv._rewards\<close>.  The energy model (module \<open>energy_calculation\<close>)
  is not part of the sources; its method \<open>compute_efficiency(vehicle, normalise)\<close>
  is the parameter \<open>compute_efficiency\<close>.
\<close>

definition MOHighwayEnv_rewards ::
  "(ego \<Rightarrow> bool \<Rightarrow> real) \<Rightarrow> config \<Rightarrow> ego \<Rightarrow> reward_terms" where
  "MOHighwayEnv_rewards compute_efficiency cfg v =
     (let forward_speed = speed v * cos (heading v);
          scaled_speed = lmap forward_speed (reward_speed_range cfg) (0, 1)
      in \<lparr>collision_term = (if crashed v then 1 else 0),
          right_lane_term = real (lane v) / real_of_int (max (int (side_lanes v) - 1) 1),
          high_speed_term = clip scaled_speed 0 1,
          energy_consumption_term = compute_efficiency v (normalize_reward cfg)\<rparr>)"

text \<open>
  \<open>MOHighwayEnv._reward\<close>: every term is scaled by the configuration entry of
  its name, the two sums are normalised when \<open>normalize_reward\<close> is set, and
  both are set to 0 when the scaled collision term is not 0.  The result is the
  array \<open>[speed_reward, energy_reward]\<close>.
\<close>

definition MOHighwayEnv_reward ::
  "(ego \<Rightarrow> bool \<Rightarrow> real) \<Rightarrow> config \<Rightarrow> ego \<Rightarrow> real \<times> real" where
  "MOHighwayEnv_reward compute_efficiency cfg v =
     (let rs = MOHighwayEnv_rewards compute_efficiency cfg v;
          collision = collision_reward cfg * collision_term rs;
          right_lane = right_lane_reward cfg * right_lane_term rs;
          high_speed = high_speed_reward cfg * high_speed_term rs;
          energy_consumption = energy_consumption_reward cfg * energy_consumption_term rs;
          speed_reward = high_speed + right_lane + collision;
          energy_reward = energy_consumption + right_lane + collision;
          speed_reward' =
            (if normalize_reward cfg
             then lmap speed_reward
                    (collision_reward cfg, high_speed_reward cfg + right_lane_reward cfg) (0, 1)
             else speed_reward);
          energy_reward' =
            (if normalize_reward cfg
             then lmap energy_reward
                    (collision_reward cfg,
                     energy_consumption_reward cfg + right_lane_reward cfg) (0, 1)
             else energy_reward)
      in if collision \<noteq> 0 then (0, 0) else (speed_reward', energy_reward'))"

section \<open>utils.py: ReplayBuffer\<close>

text \<open>
  The fields of a \<open>ReplayBuffer\<close> (\<open>self.size\<close> is \<open>size_rb\<close>; the device
  and the random generator are left out, the generator's draw is a parameter
  of \<open>sample\<close>).  The tensor \<open>self.buffer\<close> is the list of its rows; it is
  created by \<open>torch.zeros\<close> without a dtype, so its entries are of single
  precision.
\<close>

record replay_buffer =
  size_rb :: nat
  num_objectives :: nat
  observation_space_size :: nat
  importance_sampling :: bool
  prioritise_crashes :: bool
  buffer :: "real list list"
  running_index :: nat
  num_elements :: nat

text \<open>
  The second dimension of \<open>self.buffer\<close>, fixed by \<open>__init__\<close>:
  \<^verbatim>\<open>observation_space_size*2 + num_objectives + 3\<close>.
\<close>

definition row_width :: "replay_buffer \<Rightarrow> nat" where
  "row_width rb = observation_space_size rb * 2 + num_objectives rb + 3"

text \<open>\<open>ReplayBuffer.__init__\<close>: a zero tensor, both counters 0.\<close>

definition ReplayBuffer_init :: "nat \<Rightarrow> nat \<Rightarrow> nat \<Rightarrow> bool \<Rightarrow> bool \<Rightarrow> replay_buffer" where
  "ReplayBuffer_init buffer_size observation_space_shape n_objectives imp_sampling prio_crashes =
     \<lparr>size_rb = buffer_size, num_objectives = n_objectives,
      observation_space_size = observation_space_shape,
      importance_sampling = imp_sampling, prioritise_crashes = prio_crashes,
      buffer = replicate buffer_size
                 (replicate (observation_space_shape * 2 + n_objectives + 3) 0),
      running_index = 0, num_elements = 0\<rparr>"

text \<open>
  The arguments of one call of \<open>push\<close> with \<open>num_samples == 1\<close>, the default.
  Each tensor is the list of its entries (\<open>obs\<close> and \<open>next_obs\<close> as
  \<open>flatten()\<close> returns them), whatever its dtype; \<open>importance_sampling_id\<close>
  is \<open>None\<close> when the caller leaves it out.
\<close>

record push_args =
  obs :: "real list"
  action :: "real list"
  next_obs :: "real list"
  reward :: "real list"
  terminated :: "real list"
  importance_sampling_id :: "real list option"

text \<open>
  \<open>ReplayBuffer.__increment_indices\<close>.  The remainder by a size of 0 raises
  in Python.
\<close>

definition increment_indices :: "replay_buffer \<Rightarrow> error + replay_buffer" where
  "increment_indices rb =
     (if size_rb rb = 0 then Inl ZeroDivisionError
      else let rb1 = rb\<lparr>running_index := (running_index rb + 1) mod size_rb rb\<rparr>
           in Inr (if num_elements rb1 < size_rb rb1
                   then rb1\<lparr>num_elements := num_elements rb1 + 1\<rparr> else rb1))"

text \<open>
  The assignment \<^verbatim>\<open>self.buffer[i] = elem\<close> on a tensor of single precision with
  rows of width \<open>w\<close>: an index beyond the last row raises, a value of the
  row's width replaces the row, a value of one entry is broadcast over the
  row, any other shape raises.  The entries are cast to the dtype of the
  buffer, that is, rounded by \<open>float32\<close>.
\<close>

definition set_row :: "real list list \<Rightarrow> nat \<Rightarrow> nat \<Rightarrow> real list \<Rightarrow> error + real list list" where
  "set_row buf w i elem =
     (if length buf \<le> i then Inl IndexError
      else if length elem = w then Inr (buf[i := map float32 elem])
      else if length elem = 1 then Inr (buf[i := replicate w (float32 (hd elem))])
      else Inl RuntimeError)"

text \<open>
  The row that \<open>push\<close> concatenates.  Without importance sampling the
  identifier of the caller is replaced by the tensor \<open>[0]\<close>.
\<close>

definition push_elem :: "replay_buffer \<Rightarrow> push_args \<Rightarrow> error + real list" where
  "push_elem rb a =
     (if importance_sampling rb \<and> importance_sampling_id a = None then Inl AssertionError
      else let isid = (if \<not> importance_sampling rb then [0]
                       else case importance_sampling_id a of None \<Rightarrow> [] | Some t \<Rightarrow> t)
           in Inr (obs a @ action a @ next_obs a @ reward a @ terminated a @ isid))"

text \<open>\<open>ReplayBuffer.push\<close> with \<open>num_samples == 1\<close>.\<close>

definition push :: "replay_buffer \<Rightarrow> push_args \<Rightarrow> error + replay_buffer" where
  "push rb a =
     (case push_elem rb a of
        Inl e \<Rightarrow> Inl e
      | Inr elem \<Rightarrow>
          (case set_row (buffer rb) (row_width rb) (running_index rb) elem of
             Inl e \<Rightarrow> Inl e
           | Inr buf \<Rightarrow> increment_indices (rb\<lparr>buffer := buf\<rparr>)))"

text \<open>A sequence of calls of \<open>push\<close>; the first exception ends it.\<close>

fun push_all :: "replay_buffer \<Rightarrow> push_args list \<Rightarrow> error + replay_buffer" where
  "push_all rb [] = Inr rb"
| "push_all rb (a # as) =
     (case push rb a of Inl e \<Rightarrow> Inl e | Inr rb' \<Rightarrow> push_all rb' as)"

text \<open>
  Columns counted from the end, \<^verbatim>\<open>samples[:, -k]\<close>.  The rows of a buffer are
  at least 3 wide, so that the columns \<open>-1\<close> and \<open>-2\<close> exist.
\<close>

definition column_from_end :: "nat \<Rightarrow> real list list \<Rightarrow> real list" where
  "column_from_end k samples = map (\<lambda>row. row ! (length row - k)) samples"

text \<open>\<open>ReplayBuffer.compute_importance_sampling_probs\<close>; \<open>torch.min\<close> of an
  empty tensor raises.\<close>

definition compute_importance_sampling_probs :: "replay_buffer \<Rightarrow> error + real list" where
  "compute_importance_sampling_probs rb =
     (let imp_sampling_ids = column_from_end 1 (take (num_elements rb) (buffer rb))
      in if imp_sampling_ids = [] then Inl RuntimeError
         else let min_id = Min (set imp_sampling_ids)
              in Inr (map (\<lambda>x. x - min_id + 1) imp_sampling_ids))"

text \<open>\<open>torch.cumsum\<close> along a vector.\<close>

fun cumsum_from :: "real \<Rightarrow> real list \<Rightarrow> real list" where
  "cumsum_from acc [] = []"
| "cumsum_from acc (x # xs) = (acc + x) # cumsum_from (acc + x) xs"

definition cumsum :: "real list \<Rightarrow> real list" where
  "cumsum xs = cumsum_from 0 xs"

text \<open>
  The vector \<open>sample_probs\<close> that \<open>sample\<close> hands to the generator as \<open>p\<close>.
  Indexing the empty cumulative sum with \<open>-1\<close> raises.
\<close>

definition sample_probs :: "replay_buffer \<Rightarrow> error + real list" where
  "sample_probs rb =
     (case (if importance_sampling rb then compute_importance_sampling_probs rb
            else Inr (replicate (num_elements rb) (1 / real (num_elements rb)))) of
        Inl e \<Rightarrow> Inl e
      | Inr probs \<Rightarrow>
          let crashed_flag =
                map (\<lambda>x. x \<noteq> 0) (column_from_end 2 (take (num_elements rb) (buffer rb)));
              probs' = (if prioritise_crashes rb
                        then map2 (\<lambda>c p. if c then p * 2 else p) crashed_flag probs
                        else probs)
          in if probs' = [] then Inl IndexError
             else Inr (map (\<lambda>p. p / last (cumsum probs')) probs'))"

text \<open>
  \<open>ReplayBuffer.sample\<close>.  The parameter \<open>choice n p k\<close> stands for
  \<^verbatim>\<open>self.rng.choice(n, p=p, size=k, replace=True, shuffle=True)\<close>, the draw of
  \<open>k\<close> indices below \<open>n\<close> by numpy's generator.
\<close>

definition sample ::
  "(nat \<Rightarrow> real list \<Rightarrow> nat \<Rightarrow> nat list) \<Rightarrow> replay_buffer \<Rightarrow> real \<Rightarrow> error + real list list" where
  "sample choice rb sample_size =
     (case sample_probs rb of
        Inl e \<Rightarrow> Inl e
      | Inr p \<Rightarrow>
          let sample_indices = choice (num_elements rb) p (nat (max 1 (py_round sample_size)))
          in Inr (map (\<lambda>i. buffer rb ! i) sample_indices))"

text \<open>The accessors, slices of the columns of a batch of rows.\<close>

definition get_observations :: "replay_buffer \<Rightarrow> real list list \<Rightarrow> real list list" where
  "get_observations rb samples = map (\<lambda>row. take (observation_space_size rb) row) samples"

definition get_next_obs :: "replay_buffer \<Rightarrow> real list list \<Rightarrow> real list list" where
  "get_next_obs rb samples =
     map (\<lambda>row. drop (observation_space_size rb + 1)
                  (take (observation_space_size rb * 2 + 1) row)) samples"

definition get_rewards :: "replay_buffer \<Rightarrow> real list list \<Rightarrow> real list list" where
  "get_rewards rb samples =
     map (\<lambda>row. drop (observation_space_size rb * 2 + 1) (take (length row - 2) row)) samples"

definition get_termination_flag :: "replay_buffer \<Rightarrow> real list list \<Rightarrow> bool list" where
  "get_termination_flag rb samples = map (\<lambda>x. x \<noteq> 0) (column_from_end 2 samples)"

definition get_importance_sampling_id :: "replay_buffer \<Rightarrow> real list list \<Rightarrow> real list" where
  "get_importance_sampling_id rb samples = column_from_end 1 samples"

text \<open>
  The shape of a buffer that \<open>__init__\<close> builds with a capacity above 0 and
  that \<open>push\<close> keeps: \<open>size_rb\<close> rows of the fixed width, the running index
  on a row, the occupancy at most the capacity.
\<close>

definition rb_ok :: "replay_buffer \<Rightarrow> bool" where
  "rb_ok rb =
     (0 < size_rb rb \<and> length (buffer rb) = size_rb rb \<and> running_index rb < size_rb rb \<and>
      num_elements rb \<le> size_rb rb \<and>
      list_all (\<lambda>row. length row = row_width rb) (buffer rb))"

text \<open>
  The row that a call of \<open>push\<close> stores, the concatenated row in single
  precision, and the calls whose row has the width of the buffer (the calls
  that follow the column layout).
\<close>

definition pushed_row :: "replay_buffer \<Rightarrow> push_args \<Rightarrow> real list" where
  "pushed_row rb a =
     (case push_elem rb a of Inl e \<Rightarrow> [] | Inr elem \<Rightarrow> map float32 elem)"

definition well_shaped :: "replay_buffer \<Rightarrow> push_args \<Rightarrow> bool" where
  "well_shaped rb a =
     (case push_elem rb a of Inl e \<Rightarrow> False | Inr elem \<Rightarrow> length elem = row_width rb)"

text \<open>
  The selection weight of the occupied row \<open>i\<close> that \<open>sample\<close> works with:
  1 without importance sampling, the row's identifier minus the least
  identifier in the buffer plus 1 with it, and in both cases twice that for
  a row whose terminal flag is set when \<open>prioritise_crashes\<close> is on.
\<close>

definition sample_weight :: "replay_buffer \<Rightarrow> nat \<Rightarrow> real" where
  "sample_weight rb i =
     (let occupied = take (num_elements rb) (buffer rb);
          ident = (\<lambda>row. row ! (length row - 1));
          min_id_in_buffer = Min (ident ` set occupied);
          w = (if importance_sampling rb then ident (occupied ! i) - min_id_in_buffer + 1 else 1)
      in if prioritise_crashes rb \<and> (occupied ! i) ! (length (occupied ! i) - 2) \<noteq> 0
         then 2 * w else w)"

text \<open>
  The selection weight in the words of the specification of \<open>sample\<close>: 1
  when importance sampling is disabled; when it is enabled, the row's
  identifier minus the least identifier in the buffer plus 1, and twice that
  for a row whose terminal flag is set when \<open>prioritise_crashes\<close> is enabled
  as well.
\<close>

definition spec_sample_weight :: "replay_buffer \<Rightarrow> nat \<Rightarrow> real" where
  "spec_sample_weight rb i =
     (let occupied = take (num_elements rb) (buffer rb);
          ident = (\<lambda>row. row ! (length row - 1));
          min_id_in_buffer = Min (ident ` set occupied);
          w = ident (occupied ! i) - min_id_in_buffer + 1
      in if \<not> importance_sampling rb then 1
         else if prioritise_crashes rb \<and> (occupied ! i) ! (length (occupied ! i) - 2) \<noteq> 0
              then 2 * w else w)"

section \<open>MOMA_DQN.py: compute_reward_summary\<close>

text \<open>
  The reward matrices that the environment returns are padded with
  not-a-number rows, so an entry of a tensor is a real number or \<open>None\<close>,
  which stands for not-a-number; arithmetic on not-a-number gives
  not-a-number.
\<close>

type_synonym fl = "real option"

definition fmul :: "fl \<Rightarrow> fl \<Rightarrow> fl" where
  "fmul a b =
     (case a of None \<Rightarrow> None
      | Some x \<Rightarrow> (case b of None \<Rightarrow> None | Some y \<Rightarrow> Some (x * y)))"

definition fadd :: "fl \<Rightarrow> fl \<Rightarrow> fl" where
  "fadd a b =
     (case a of None \<Rightarrow> None
      | Some x \<Rightarrow> (case b of None \<Rightarrow> None | Some y \<Rightarrow> Some (x + y)))"

text \<open>The division of a sum by a number of rows; \<open>0 / 0\<close> is not-a-number.\<close>

definition fdiv_count :: "fl \<Rightarrow> nat \<Rightarrow> fl" where
  "fdiv_count a k =
     (case a of None \<Rightarrow> None | Some x \<Rightarrow> if k = 0 then None else Some (x / real k))"

text \<open>The results of a list of computations, or the first exception among them.\<close>

fun collect :: "(error + 'a) list \<Rightarrow> error + 'a list" where
  "collect [] = Inr []"
| "collect (x # xs) =
     (case x of
        Inl e \<Rightarrow> Inl e
      | Inr v \<Rightarrow> (case collect xs of Inl e \<Rightarrow> Inl e | Inr vs \<Rightarrow> Inr (v # vs)))"

text \<open>
  The product \<open>a * b\<close> of two tensors with torch's broadcasting: along each
  dimension the sizes are equal or one of them is 1, any other pair of sizes
  raises.
\<close>

definition vec_mul :: "fl list \<Rightarrow> fl list \<Rightarrow> error + fl list" where
  "vec_mul a b =
     (if length a = length b then Inr (map2 fmul a b)
      else if length a = 1 then Inr (map (fmul (hd a)) b)
      else if length b = 1 then Inr (map (\<lambda>x. fmul x (hd b)) a)
      else Inl RuntimeError)"

definition tensor_mul :: "fl list list \<Rightarrow> fl list list \<Rightarrow> error + fl list list" where
  "tensor_mul a b =
     (if length a = length b then collect (map2 vec_mul a b)
      else if length a = 1 then collect (map (vec_mul (hd a)) b)
      else if length b = 1 then collect (map (\<lambda>x. vec_mul x (hd b)) a)
      else Inl RuntimeError)"

text \<open>
  \<open>torch.stack(tensors, dim=0)\<close> of a list of vectors: an empty list and
  vectors of different lengths raise.
\<close>

definition stack :: "fl list list \<Rightarrow> error + fl list list" where
  "stack tensors =
     (case tensors of
        [] \<Rightarrow> Inl RuntimeError
      | t # ts \<Rightarrow> if list_all (\<lambda>u. length u = length t) ts then Inr tensors
                  else Inl RuntimeError)"

text \<open>
  \<open>torch.mean(rows, dim=0)\<close> of a matrix with \<open>width\<close> columns: the mean of
  every column over the rows.
\<close>

definition mean_dim0 :: "nat \<Rightarrow> fl list list \<Rightarrow> fl list" where
  "mean_dim0 width rows =
     map (\<lambda>j. fdiv_count (foldl fadd (Some 0) (map (\<lambda>row. row ! j) rows)) (length rows))
       [0..<width]"

text \<open>
  The attributes of a \<open>MOMA_DQN\<close> that \<open>compute_reward_summary\<close> reads
  (\<open>self.num_objectives\<close> is \<open>dqn_num_objectives\<close>, \<open>self.crashed\<close> is
  \<open>dqn_crashed\<close>).
\<close>

record moma_dqn =
  num_controlled_vehicles :: nat
  dqn_num_objectives :: nat
  reward_structure :: string
  dqn_crashed :: "bool list"

text \<open>
  \<^verbatim>\<open>weights[torch.all(weights == 0, dim=1)] = 1/self.num_objectives\<close>: every entry
  of a row of zeros becomes \<open>1/n\<close>.
\<close>

definition equalise_uncontrolled :: "nat \<Rightarrow> fl list list \<Rightarrow> fl list list" where
  "equalise_uncontrolled n weights =
     map (\<lambda>row. if list_all (\<lambda>x. x = Some 0) row then map (\<lambda>x. Some (1 / real n)) row else row)
       weights"

text \<open>
  The rows of \<open>r\<close> beyond the \<open>k\<close> rows of the weights are asserted to be
  not-a-number and cut off.
\<close>

definition trim_rewards :: "fl list list \<Rightarrow> nat \<Rightarrow> error + fl list list" where
  "trim_rewards r k =
     (if k < length r
      then if list_all (list_all (\<lambda>x. x = None)) (drop k r) then Inr (take k r)
           else Inl AssertionError
      else Inr r)"

text \<open>The \<open>match\<close> on \<open>self.reward_structure\<close>.\<close>

definition summarise :: "string \<Rightarrow> nat \<Rightarrow> fl list list \<Rightarrow> error + fl list" where
  "summarise structure width weighted_reward =
     (if structure = ''mean_reward'' then Inr (mean_dim0 width weighted_reward)
      else if structure = ''ego_reward''
           then (case weighted_reward of [] \<Rightarrow> Inl IndexError | ego # others \<Rightarrow> Inr ego)
      else Inl ValueError)"

text \<open>
  The body of the loop of \<open>compute_reward_summary\<close> for the controlled
  vehicle \<open>i\<close>.  \<open>rewards\<close> has one matrix per vehicle, \<open>obj_weights\<close> one list
  of weight vectors per vehicle.  (A product without rows is given the width
  of the weights.)
\<close>

definition vehicle_summary ::
  "moma_dqn \<Rightarrow> fl list list list \<Rightarrow> fl list list list \<Rightarrow> nat \<Rightarrow> error + fl list" where
  "vehicle_summary self rewards obj_weights i =
     (if length rewards \<le> i then Inl IndexError
      else let r = rewards ! i
      in if length (dqn_crashed self) \<le> i then Inl IndexError
      else if dqn_crashed self ! i
           then (case r of [] \<Rightarrow> Inl IndexError | ego # others \<Rightarrow> Inr ego)
      else if length obj_weights \<le> i then Inl IndexError
      else case stack (obj_weights ! i) of
             Inl e \<Rightarrow> Inl e
           | Inr stacked \<Rightarrow>
               if dqn_num_objectives self = 0 then Inl ZeroDivisionError
               else let weights = equalise_uncontrolled (dqn_num_objectives self) stacked
                    in case trim_rewards r (length weights) of
                         Inl e \<Rightarrow> Inl e
                       | Inr r' \<Rightarrow>
                           (case tensor_mul r' weights of
                              Inl e \<Rightarrow> Inl e
                            | Inr weighted_reward \<Rightarrow>
                                summarise (reward_structure self)
                                  (case weighted_reward of [] \<Rightarrow> length (hd weights)
                                   | row # rows \<Rightarrow> length row)
                                  weighted_reward))"

text \<open>The loop over the controlled vehicles; the first exception ends it.\<close>

fun summary_loop ::
  "moma_dqn \<Rightarrow> fl list list list \<Rightarrow> fl list list list \<Rightarrow> nat list \<Rightarrow> error + fl list list" where
  "summary_loop self rewards obj_weights [] = Inr []"
| "summary_loop self rewards obj_weights (i # is) =
     (case vehicle_summary self rewards obj_weights i of
        Inl e \<Rightarrow> Inl e
      | Inr summary \<Rightarrow>
          (case summary_loop self rewards obj_weights is of
             Inl e \<Rightarrow> Inl e
           | Inr reward_summary \<Rightarrow> Inr (summary # reward_summary)))"

text \<open>
  \<open>MOMA_DQN.compute_reward_summary\<close>; \<open>rewards[0].shape[0]\<close> raises on an
  empty \<open>rewards\<close>.
\<close>

definition compute_reward_summary ::
  "moma_dqn \<Rightarrow> fl list list list \<Rightarrow> fl list list list \<Rightarrow> error + fl list list" where
  "compute_reward_summary self rewards obj_weights =
     (if rewards = [] then Inl IndexError
      else summary_loop self rewards obj_weights [0..<num_controlled_vehicles self])"

text \<open>
  The \<open>mean_reward\<close> aggregation in the words of the specification: every
  entry of an all-zero weight row is replaced by \<open>1/num_objectives\<close>, the
  rewards are weighted entry by entry, and each column is averaged over the
  rows.
\<close>

definition spec_mean_reward :: "nat \<Rightarrow> fl list list \<Rightarrow> fl list list \<Rightarrow> fl list" where
  "spec_mean_reward n r weights =
     (let substituted =
            map (\<lambda>row. if list_all (\<lambda>x. x = Some 0) row
                       then replicate (length row) (Some (1 / real n)) else row) weights;
          weighted = map2 (map2 fmul) r substituted
      in map (\<lambda>j. case those (map (\<lambda>row. row ! j) weighted) of
                     None \<Rightarrow> None
                   | Some xs \<Rightarrow> Some (sum_list xs / real (length xs)))
           [0..<length (hd weights)])"

section \<open>utils.py: DataLogger\<close>

text \<open>
  The Python values that a logger is given: \<open>None\<close>, a number, a string, a
  list or tuple.
\<close>

datatype pyval = PNone | PNum real | PStr string | PSeq "pyval list"

text \<open>
  A \<open>DataLogger\<close>: the name and the field names of its named tuple type, and
  \<open>self.tuple_list\<close>, the rows in the order they were appended.
\<close>

record data_logger =
  loggerName :: string
  fieldNames :: "string list"
  tuple_list :: "pyval list list"

definition DataLogger_init :: "string \<Rightarrow> string list \<Rightarrow> data_logger" where
  "DataLogger_init name names = \<lparr>loggerName = name, fieldNames = names, tuple_list = []\<rparr>"

text \<open>
  The unpacking \<open>*v\<close> of a value into positional arguments: the items of a
  list or tuple, the characters of a string; a number and \<open>None\<close> are not
  iterable.
\<close>

definition unpack :: "pyval \<Rightarrow> error + pyval list" where
  "unpack v =
     (case v of
        PSeq xs \<Rightarrow> Inr xs
      | PStr s \<Rightarrow> Inr (map (\<lambda>c. PStr [c]) s)
      | PNum x \<Rightarrow> Inl TypeError
      | PNone \<Rightarrow> Inl TypeError)"

text \<open>
  The call \<open>self.tupleType(*args, **kwargs)\<close> of the named tuple type with the
  fields \<open>names\<close>: the positional arguments fill the first fields, every
  keyword names one of the remaining fields, and no field is left without a
  value; anything else is a \<open>TypeError\<close>.
\<close>

definition tupleType :: "string list \<Rightarrow> pyval list \<Rightarrow> (string \<times> pyval) list \<Rightarrow> error + pyval list" where
  "tupleType names args kwargs =
     (let keys = map fst kwargs; remaining = drop (length args) names
      in if length names < length args then Inl TypeError
         else if \<not> distinct keys then Inl TypeError
         else if list_ex (\<lambda>k. k \<notin> set remaining) keys then Inl TypeError
         else if list_ex (\<lambda>f. f \<notin> set keys) remaining then Inl TypeError
         else Inr (args @ map (\<lambda>f. the (map_of kwargs f)) remaining))"

text \<open>
  \<open>self.tuple_list.append(row)\<close>, where the construction of \<open>row\<close> may have
  raised: the logger after the statement and the exception, if any.
\<close>

definition append_row :: "data_logger \<Rightarrow> error + pyval list \<Rightarrow> data_logger \<times> error option" where
  "append_row lg row =
     (case row of
        Inl e \<Rightarrow> (lg, Some e)
      | Inr t \<Rightarrow> (lg\<lparr>tuple_list := tuple_list lg @ [t]\<rparr>, None))"

text \<open>\<open>DataLogger._add_by_list\<close>\<close>

definition add_by_list :: "data_logger \<Rightarrow> pyval \<Rightarrow> data_logger \<times> error option" where
  "add_by_list lg entry_list =
     append_row lg
       (case unpack entry_list of
          Inl e \<Rightarrow> Inl e
        | Inr entries \<Rightarrow> tupleType (fieldNames lg) entries [])"

text \<open>\<open>DataLogger._add_by_params\<close>\<close>

definition add_by_params ::
  "data_logger \<Rightarrow> pyval list \<Rightarrow> (string \<times> pyval) list \<Rightarrow> data_logger \<times> error option" where
  "add_by_params lg args kwargs = append_row lg (tupleType (fieldNames lg) args kwargs)"

text \<open>\<open>DataLogger.add\<close>; \<open>kwargs\<close> is the list of the keyword arguments.\<close>

definition add ::
  "data_logger \<Rightarrow> pyval list \<Rightarrow> (string \<times> pyval) list \<Rightarrow> data_logger \<times> error option" where
  "add lg args kwargs =
     (if length args = 1 \<and> length kwargs = 0 then add_by_list lg (args ! 0)
      else if length args = 0 \<and> length kwargs = 1 then add_by_list lg (snd (kwargs ! 0))
      else add_by_params lg args kwargs)"


section \<open>MOMA_DQN.py: the reward logger in train\<close>

text \<open>
  How a run of \<open>train\<close> ends: the loop over the episodes completes, an
  episode raises or never ends, or the call of the logger raises.
\<close>

datatype run_end = Completed | Episode_stopped | Raised error

text \<open>
  The loop over the episodes of \<open>train\<close>, as far as \<open>self.reward_logger\<close> is
  concerned.  Per episode the code sets \<open>accumulated_rewards\<close> to
  \<open>np.zeros(self.num_objectives)\<close>, runs the episode, updates the networks,
  evaluates, reduces epsilon, and calls
  \<^verbatim>\<open>self.reward_logger.add(episode_nr, *list(accumulated_rewards))\<close>.
  Nothing between the first and the last of these statements mentions
  \<open>accumulated_rewards\<close> or \<open>self.reward_logger\<close>; all of it is the parameter
  \<open>episode\<close>, which maps the episode number and the rest of the state
  (environment, networks, replay buffer, generator, the other loggers) to the
  state afterwards, or to \<open>None\<close> when it raises or does not end.  The result
  is the reward logger at the end of the run and the way the run ended.
\<close>

fun train_loop ::
  "(nat \<Rightarrow> 'w \<Rightarrow> 'w option) \<Rightarrow> nat \<Rightarrow> nat list \<Rightarrow> 'w \<Rightarrow> data_logger \<Rightarrow> data_logger \<times> run_end" where
  "train_loop episode n [] w reward_logger = (reward_logger, Completed)"
| "train_loop episode n (episode_nr # rest) w reward_logger =
     (let accumulated_rewards = replicate n (0 :: real)
      in case episode episode_nr w of
           None \<Rightarrow> (reward_logger, Episode_stopped)
         | Some w' \<Rightarrow>
             (case add reward_logger (PNum (real episode_nr) # map PNum accumulated_rewards) [] of
                (lg, Some e) \<Rightarrow> (lg, Raised e)
              | (lg, None) \<Rightarrow> train_loop episode n rest w' lg))"

text \<open>\<open>MOMA_DQN.train\<close> with \<open>num_episodes\<close> episodes and \<open>n\<close> objectives.\<close>

definition train ::
  "(nat \<Rightarrow> 'w \<Rightarrow> 'w option) \<Rightarrow> nat \<Rightarrow> nat \<Rightarrow> 'w \<Rightarrow> data_logger \<Rightarrow> data_logger \<times> run_end" where
  "train episode num_episodes n w reward_logger =
     train_loop episode n [0..<num_episodes] w reward_logger"

section \<open>MOMA_DQN.py: reduce_epsilon\<close>

text \<open>
  The values of \<open>reduce_epsilon\<close> are Python floats, and what it reaches
  after a number of calls depends on their rounding: every arithmetic
  operation gives the exact result rounded by \<open>float64\<close>.
\<close>

text \<open>
  \<open>MOMA_DQN.reduce_epsilon\<close>:
  \<^verbatim>\<open>self.epsilon = max(eps_end, self.epsilon - (eps_start-eps_end)/max_iteration)\<close>.
  It takes \<open>self.epsilon\<close> and returns its new value; \<open>max_iteration\<close> is an
  integer, and the division by 0 raises.
\<close>

definition reduce_epsilon :: "real \<Rightarrow> int \<Rightarrow> real \<Rightarrow> real \<Rightarrow> error + real" where
  "reduce_epsilon epsilon max_iteration eps_start eps_end =
     (if max_iteration = 0 then Inl ZeroDivisionError
      else Inr (max eps_end
                  (float64 (epsilon -
                     float64 (float64 (eps_start - eps_end) / real_of_int max_iteration)))))"

text \<open>\<open>k\<close> calls of \<open>reduce_epsilon\<close>, one after the other.\<close>

fun reduce_epsilon_times :: "nat \<Rightarrow> real \<Rightarrow> int \<Rightarrow> real \<Rightarrow> real \<Rightarrow> error + real" where
  "reduce_epsilon_times 0 epsilon max_iteration eps_start eps_end = Inr epsilon"
| "reduce_epsilon_times (Suc k) epsilon max_iteration eps_start eps_end =
     (case reduce_epsilon epsilon max_iteration eps_start eps_end of
        Inl e \<Rightarrow> Inl e
      | Inr epsilon' \<Rightarrow> reduce_epsilon_times k epsilon' max_iteration eps_start eps_end)"

section \<open>Properties of the reward of MOHighwayEnv\<close>

lemma right_lane_term_bounds:
  assumes "lane v < side_lanes v"
  shows "0 \<le> right_lane_term (MOHighwayEnv_rewards ce cfg v)"
    and "right_lane_term (MOHighwayEnv_rewards ce cfg v) \<le> 1"
proof -
  let ?d = "real_of_int (max (int (side_lanes v) - 1) 1)"
  have d: "0 < ?d" by simp
  have "int (lane v) \<le> max (int (side_lanes v) - 1) 1" using assms by simp
  then have le: "real (lane v) \<le> ?d"
    by (metis of_int_le_iff of_int_of_nat_eq)
  show "0 \<le> right_lane_term (MOHighwayEnv_rewards ce cfg v)"
    using d by (simp add: MOHighwayEnv_rewards_def Let_def)
  show "right_lane_term (MOHighwayEnv_rewards ce cfg v) \<le> 1"
    using d le by (simp add: MOHighwayEnv_rewards_def Let_def)
qed

lemma high_speed_term_bounds:
  "0 \<le> high_speed_term (MOHighwayEnv_rewards ce cfg v)"
  "high_speed_term (MOHighwayEnv_rewards ce cfg v) \<le> 1"
  by (simp_all add: MOHighwayEnv_rewards_def Let_def clip_def)

lemma lmap_unit_bounds:
  assumes "a < b" and "a \<le> v" and "v \<le> b"
  shows "0 \<le> lmap v (a, b) (0, 1) \<and> lmap v (a, b) (0, 1) \<le> 1"
  using assms by (simp add: lmap_def)

text \<open>
  C1, as the code has it.  Under a configuration with \<open>normalize_reward\<close>
  set, a negative collision coefficient, right-lane, high-speed and energy
  coefficients that are not negative, and a speed range that is not
  degenerate (the default configuration is one), with the energy term within
  \<open>[0,1]\<close>: both components of the reward lie in \<open>[0,1]\<close> when the ego
  vehicle has not crashed, and both are exactly 0 when it has crashed.  In
  the first part the lane number is a lane of the road segment.
\<close>

theorem reward_bounds:
  assumes norm: "normalize_reward cfg"
    and coll: "collision_reward cfg < 0"
    and coef: "0 \<le> right_lane_reward cfg" "0 \<le> high_speed_reward cfg"
              "0 \<le> energy_consumption_reward cfg"
    and range: "fst (reward_speed_range cfg) < snd (reward_speed_range cfg)"
  shows "(\<not> crashed v \<and> lane v < side_lanes v \<and> 0 \<le> ce v True \<and> ce v True \<le> 1 \<longrightarrow>
            0 \<le> fst (MOHighwayEnv_reward ce cfg v) \<and> fst (MOHighwayEnv_reward ce cfg v) \<le> 1 \<and>
            0 \<le> snd (MOHighwayEnv_reward ce cfg v) \<and> snd (MOHighwayEnv_reward ce cfg v) \<le> 1)
       \<and> (crashed v \<longrightarrow> MOHighwayEnv_reward ce cfg v = (0, 0))"
proof (intro conjI impI)
  assume "crashed v"
  then show "MOHighwayEnv_reward ce cfg v = (0, 0)"
    using coll by (simp add: MOHighwayEnv_reward_def MOHighwayEnv_rewards_def Let_def)
next
  assume pre: "\<not> crashed v \<and> lane v < side_lanes v \<and> 0 \<le> ce v True \<and> ce v True \<le> 1"
  then have nc: "\<not> crashed v" and lane: "lane v < side_lanes v"
    and energy: "0 \<le> ce v True" "ce v True \<le> 1"
    by simp_all
  let ?rs = "MOHighwayEnv_rewards ce cfg v"
  let ?c = "collision_reward cfg"
  let ?r = "right_lane_reward cfg"
  let ?h = "high_speed_reward cfg"
  let ?e = "energy_consumption_reward cfg"
  have ct: "collision_term ?rs = 0"
    using nc by (simp add: MOHighwayEnv_rewards_def Let_def)
  have et: "energy_consumption_term ?rs = ce v True"
    using norm by (simp add: MOHighwayEnv_rewards_def Let_def)
  note rl = right_lane_term_bounds [OF lane, of ce cfg]
  note hs = high_speed_term_bounds [of ce cfg v]
  have r0: "0 \<le> ?r * right_lane_term ?rs" and r1: "?r * right_lane_term ?rs \<le> ?r"
    using coef(1) rl by (simp_all add: mult_left_le)
  have h0: "0 \<le> ?h * high_speed_term ?rs" and h1: "?h * high_speed_term ?rs \<le> ?h"
    using coef(2) hs by (simp_all add: mult_left_le)
  have e0: "0 \<le> ?e * ce v True" and e1: "?e * ce v True \<le> ?e"
    using coef(3) energy by (simp_all add: mult_left_le)
  have sp: "fst (MOHighwayEnv_reward ce cfg v) =
              lmap (?h * high_speed_term ?rs + ?r * right_lane_term ?rs) (?c, ?h + ?r) (0, 1)"
    using norm ct by (simp add: MOHighwayEnv_reward_def Let_def)
  have en: "snd (MOHighwayEnv_reward ce cfg v) =
              lmap (?e * ce v True + ?r * right_lane_term ?rs) (?c, ?e + ?r) (0, 1)"
    using norm ct et by (simp add: MOHighwayEnv_reward_def Let_def)
  have sb: "0 \<le> fst (MOHighwayEnv_reward ce cfg v) \<and> fst (MOHighwayEnv_reward ce cfg v) \<le> 1"
    unfolding sp using coll coef r0 r1 h0 h1 by (intro lmap_unit_bounds) linarith+
  have eb: "0 \<le> snd (MOHighwayEnv_reward ce cfg v) \<and> snd (MOHighwayEnv_reward ce cfg v) \<le> 1"
    unfolding en using coll coef r0 r1 e0 e1 by (intro lmap_unit_bounds) linarith+
  from sb show "0 \<le> fst (MOHighwayEnv_reward ce cfg v)" by simp
  from sb show "fst (MOHighwayEnv_reward ce cfg v) \<le> 1" by simp
  from eb show "0 \<le> snd (MOHighwayEnv_reward ce cfg v)" by simp
  from eb show "snd (MOHighwayEnv_reward ce cfg v) \<le> 1" by simp
qed

theorem reward_bounds_witness:
  "normalize_reward default_config \<and> collision_reward default_config < 0 \<and>
   fst (reward_speed_range default_config) < snd (reward_speed_range default_config) \<and>
   MOHighwayEnv_reward (\<lambda>v n. 1 / 2) default_config
     \<lparr>crashed = False, speed = 25, heading = 0, lane = 1, side_lanes = 4\<rparr> = (47 / 66, 47 / 66) \<and>
   0 \<le> fst (MOHighwayEnv_reward (\<lambda>v n. 1 / 2) default_config
     \<lparr>crashed = False, speed = 25, heading = 0, lane = 1, side_lanes = 4\<rparr>) \<and>
   snd (MOHighwayEnv_reward (\<lambda>v n. 1 / 2) default_config
     \<lparr>crashed = False, speed = 25, heading = 0, lane = 1, side_lanes = 4\<rparr>) \<le> 1 \<and>
   MOHighwayEnv_reward (\<lambda>v n. 1 / 2) default_config
     \<lparr>crashed = True, speed = 25, heading = 0, lane = 1, side_lanes = 4\<rparr> = (0, 0)"
proof -
  let ?ce = "\<lambda>(v::ego) (n::bool). 1 / 2 :: real"
  let ?v = "\<lparr>crashed = False, speed = 25, heading = 0, lane = 1, side_lanes = 4\<rparr>"
  let ?w = "\<lparr>crashed = True, speed = 25, heading = 0, lane = 1, side_lanes = 4\<rparr>"
  have cfg: "normalize_reward default_config" "collision_reward default_config < 0"
    "0 \<le> right_lane_reward default_config" "0 \<le> high_speed_reward default_config"
    "0 \<le> energy_consumption_reward default_config"
    "fst (reward_speed_range default_config) < snd (reward_speed_range default_config)"
    by (simp_all add: default_config_def)
  have a: "0 \<le> fst (MOHighwayEnv_reward ?ce default_config ?v) \<and>
           snd (MOHighwayEnv_reward ?ce default_config ?v) \<le> 1"
    using reward_bounds [OF cfg, of ?v ?ce] by simp
  have b: "MOHighwayEnv_reward ?ce default_config ?w = (0, 0)"
    using reward_bounds [OF cfg, of ?w ?ce] by simp
  have c: "MOHighwayEnv_reward ?ce default_config ?v = (47 / 66, 47 / 66)"
    by (simp add: MOHighwayEnv_reward_def MOHighwayEnv_rewards_def default_config_def
          Let_def lmap_def clip_def)
  show ?thesis using cfg a b c by simp
qed

text \<open>
  C1 as it is stated, for every configuration with \<open>normalize_reward\<close> set,
  does not hold.  \<open>_reward\<close> recognises a crash by the scaled collision term,
  so with a collision coefficient of 0 the reward of a crashed step is not
  set to 0; and with a negative right-lane coefficient the reward of a step
  without a crash exceeds 1.
\<close>

theorem reward_bounds_counterexample:
  "normalize_reward (default_config\<lparr>collision_reward := 0\<rparr>) \<and>
   MOHighwayEnv_reward (\<lambda>v n. 1 / 2) (default_config\<lparr>collision_reward := 0\<rparr>)
     \<lparr>crashed = True, speed = 25, heading = 0, lane = 1, side_lanes = 4\<rparr> = (17 / 36, 17 / 36) \<and>
   (17 / 36, 17 / 36) \<noteq> (0 :: real, 0 :: real) \<and>
   normalize_reward (default_config\<lparr>right_lane_reward := - (1 / 2)\<rparr>) \<and>
   fst (MOHighwayEnv_reward (\<lambda>v n. 1 / 2) (default_config\<lparr>right_lane_reward := - (1 / 2)\<rparr>)
     \<lparr>crashed = False, speed = 30, heading = 0, lane = 0, side_lanes = 4\<rparr>) = 4 / 3 \<and>
   \<not> (4 / 3 :: real) \<le> 1"
  by (simp add: MOHighwayEnv_reward_def MOHighwayEnv_rewards_def default_config_def
        Let_def lmap_def clip_def)

section \<open>Properties of the rounding\<close>

lemma binade_eqI:
  assumes "2 powi e \<le> \<bar>x\<bar>" and "\<bar>x\<bar> < 2 powi (e + 1)"
  shows "binade x = e"
proof -
  have "(0::real) < 2 powi e" by simp
  with assms(1) have pos: "0 < \<bar>x\<bar>" by linarith
  have a: "(2::real) powr real_of_int e = 2 powi e"
    by (rule powr_real_of_int') simp_all
  have b: "(2::real) powr real_of_int (e + 1) = 2 powi (e + 1)"
    by (rule powr_real_of_int') simp_all
  have "\<lfloor>log 2 \<bar>x\<bar>\<rfloor> = e \<longleftrightarrow>
          2 powr real_of_int e \<le> \<bar>x\<bar> \<and> \<bar>x\<bar> < 2 powr real_of_int (e + 1)"
    by (rule floor_log_eq_powr_iff) (use pos in simp_all)
  then have "\<lfloor>log 2 \<bar>x\<bar>\<rfloor> = e"
    unfolding a b using assms by blast
  then show ?thesis by (simp add: binade_def)
qed

lemma float64_eval:
  assumes "2 powi e \<le> \<bar>x\<bar>" and "\<bar>x\<bar> < 2 powi (e + 1)" and "- 1022 \<le> e"
  shows "float64 x = real_of_int (py_round (x / 2 powi (e - 52))) * 2 powi (e - 52)"
proof -
  have "(0::real) < 2 powi e" by simp
  with assms(1) have "0 < \<bar>x\<bar>" by linarith
  then have "x \<noteq> 0" by simp
  moreover have "binade x = e" using assms(1,2) by (rule binade_eqI)
  moreover have "max (e - 52) (- 1074) = e - 52" using assms(3) by simp
  ultimately show ?thesis by (simp add: float64_def Let_def)
qed

lemma float32_eval:
  assumes "2 powi e \<le> \<bar>x\<bar>" and "\<bar>x\<bar> < 2 powi (e + 1)" and "- 126 \<le> e"
  shows "float32 x = real_of_int (py_round (x / 2 powi (e - 23))) * 2 powi (e - 23)"
proof -
  have "(0::real) < 2 powi e" by simp
  with assms(1) have "0 < \<bar>x\<bar>" by linarith
  then have "x \<noteq> 0" by simp
  moreover have "binade x = e" using assms(1,2) by (rule binade_eqI)
  moreover have "max (e - 23) (- 149) = e - 23" using assms(3) by simp
  ultimately show ?thesis by (simp add: float32_def Let_def)
qed

lemma float32_0: "float32 0 = 0"
  by (simp add: float32_def)

lemma float32_1: "float32 1 = 1"
  by (subst float32_eval [where e = 0]) (simp_all add: py_round_def Let_def power_int_minus)

lemma float32_2: "float32 2 = 2"
  by (subst float32_eval [where e = 1]) (simp_all add: py_round_def Let_def power_int_minus)

lemma float32_3: "float32 3 = 3"
  by (subst float32_eval [where e = 1]) (simp_all add: py_round_def Let_def power_int_minus)

lemma float32_4: "float32 4 = 4"
  by (subst float32_eval [where e = 2]) (simp_all add: py_round_def Let_def power_int_minus)

lemma float32_5: "float32 5 = 5"
  by (subst float32_eval [where e = 2]) (simp_all add: py_round_def Let_def power_int_minus)

lemma float32_6: "float32 6 = 6"
  by (subst float32_eval [where e = 2]) (simp_all add: py_round_def Let_def power_int_minus)

lemma float32_7: "float32 7 = 7"
  by (subst float32_eval [where e = 2]) (simp_all add: py_round_def Let_def power_int_minus)

lemma float32_9: "float32 9 = 9"
  by (subst float32_eval [where e = 3]) (simp_all add: py_round_def Let_def power_int_minus)

lemma float32_half: "float32 (1 / 2) = 1 / 2"
  by (subst float32_eval [where e = "- 1"]) (simp_all add: py_round_def Let_def power_int_minus)

lemma float32_quarter: "float32 (1 / 4) = 1 / 4"
  by (subst float32_eval [where e = "- 2"]) (simp_all add: py_round_def Let_def power_int_minus)

lemma float32_16777217: "float32 16777217 = 16777216"
  by (subst float32_eval [where e = 24]) (simp_all add: py_round_def Let_def power_int_minus)

lemmas float32_small =
  float32_0 float32_1 float32_2 float32_3 float32_4 float32_5 float32_6 float32_7 float32_9
  float32_half float32_quarter

lemma map_float32_fixed: "list_all (\<lambda>x. float32 x = x) xs \<Longrightarrow> map float32 xs = xs"
  by (induction xs) simp_all

section \<open>Properties of ReplayBuffer\<close>

lemma rb_ok_init: "0 < C \<Longrightarrow> rb_ok (ReplayBuffer_init C L O' imp prio)"
  by (simp add: rb_ok_def ReplayBuffer_init_def row_width_def list_all_length)

lemma push_elem_no_is:
  "\<not> importance_sampling rb \<Longrightarrow>
     push_elem rb a = Inr (obs a @ action a @ next_obs a @ reward a @ terminated a @ [0])"
  by (simp add: push_elem_def)

lemma push_buffer:
  assumes "push rb a = Inr rb'"
  obtains elem where "push_elem rb a = Inr elem"
    and "running_index rb < length (buffer rb)"
    and "length elem = row_width rb \<or> length elem = 1"
    and "buffer rb' = (buffer rb)[running_index rb :=
           (if length elem = row_width rb then map float32 elem
            else replicate (row_width rb) (float32 (hd elem)))]"
    and "running_index rb' = (running_index rb + 1) mod size_rb rb"
    and "num_elements rb' = (if num_elements rb < size_rb rb then num_elements rb + 1 else num_elements rb)"
    and "size_rb rb \<noteq> 0"
  using assms
  by (auto simp: push_def set_row_def increment_indices_def Let_def
      split: sum.splits if_splits)

lemma row_width_ge3: "3 \<le> row_width rb"
  by (simp add: row_width_def)

lemma push_static:
  assumes "push rb a = Inr rb'"
  shows "size_rb rb' = size_rb rb" "num_objectives rb' = num_objectives rb"
    "observation_space_size rb' = observation_space_size rb"
    "importance_sampling rb' = importance_sampling rb"
    "prioritise_crashes rb' = prioritise_crashes rb" "row_width rb' = row_width rb"
  using assms
  by (auto simp: push_def set_row_def increment_indices_def Let_def row_width_def
      split: sum.splits if_splits)

lemma push_all_append:
  "push_all rb (xs @ ys) =
     (case push_all rb xs of Inl e \<Rightarrow> Inl e | Inr rb' \<Rightarrow> push_all rb' ys)"
  by (induction xs arbitrary: rb) (auto split: sum.splits)

lemma push_well_shaped:
  assumes ok: "rb_ok rb" and ws: "well_shaped rb a"
  shows "\<exists>rb'. push rb a = Inr rb' \<and> rb_ok rb' \<and>
           size_rb rb' = size_rb rb \<and> importance_sampling rb' = importance_sampling rb \<and>
           row_width rb' = row_width rb \<and>
           buffer rb' = (buffer rb)[running_index rb := pushed_row rb a] \<and>
           running_index rb' = (running_index rb + 1) mod size_rb rb \<and>
           num_elements rb' = min (num_elements rb + 1) (size_rb rb)"
proof -
  from ws obtain elem where e: "push_elem rb a = Inr elem" and l: "length elem = row_width rb"
    by (auto simp: well_shaped_def split: sum.splits)
  have pr: "pushed_row rb a = map float32 elem" using e by (simp add: pushed_row_def)
  let ?rb1 = "rb\<lparr>buffer := (buffer rb)[running_index rb := map float32 elem]\<rparr>"
  let ?rb2 = "?rb1\<lparr>running_index := (running_index rb + 1) mod size_rb rb\<rparr>"
  let ?rb' = "if num_elements rb < size_rb rb
              then ?rb2\<lparr>num_elements := num_elements rb + 1\<rparr> else ?rb2"
  have p: "push rb a = Inr ?rb'"
    using ok e l by (simp add: push_def set_row_def increment_indices_def Let_def rb_ok_def)
  have all: "list_all (\<lambda>row. length row = row_width rb)
               ((buffer rb)[running_index rb := map float32 elem])"
    using ok l by (auto simp: rb_ok_def list_all_length nth_list_update)
  have ok': "rb_ok ?rb'"
    using ok all by (simp add: rb_ok_def row_width_def)
  have ne: "num_elements ?rb' = min (num_elements rb + 1) (size_rb rb)"
    using ok by (simp add: rb_ok_def)
  show ?thesis
    using p ok' ne pr by (intro exI [of _ ?rb']) (simp add: row_width_def)
qed

lemma ring_slot_distinct:
  fixes t k C :: nat
  assumes "t < k" and "k < t + C"
  shows "t mod C \<noteq> k mod C"
proof
  assume "t mod C = k mod C"
  then have "(k - t) mod C = 0"
    using assms(1) by (metis less_or_eq_imp_le mod_eq_dvd_iff_nat mod_0_imp_dvd dvd_imp_mod_0)
  moreover have "0 < k - t" "k - t < C" using assms by simp_all
  ultimately show False by simp
qed

lemma push_all_ring:
  assumes C: "0 < C" and ws: "list_all (well_shaped (ReplayBuffer_init C L O' imp prio)) as"
  shows "\<exists>rb. push_all (ReplayBuffer_init C L O' imp prio) as = Inr rb \<and> rb_ok rb \<and>
           size_rb rb = C \<and> importance_sampling rb = imp \<and> row_width rb = L * 2 + O' + 3 \<and>
           num_elements rb = min (length as) C \<and>
           running_index rb = length as mod C \<and>
           (\<forall>t<length as. length as \<le> t + C \<longrightarrow>
               buffer rb ! (t mod C) = pushed_row (ReplayBuffer_init C L O' imp prio) (as ! t)) \<and>
           (\<forall>j<C. length as \<le> j \<longrightarrow> buffer rb ! j = replicate (L * 2 + O' + 3) 0)"
  using ws
proof (induction as rule: rev_induct)
  case Nil
  show ?case
    using C rb_ok_init [OF C, of L O' imp prio]
    by (simp add: ReplayBuffer_init_def row_width_def)
next
  case (snoc a as)
  let ?rb0 = "ReplayBuffer_init C L O' imp prio"
  let ?k = "length as"
  from snoc.prems have wsa: "well_shaped ?rb0 a" and wsas: "list_all (well_shaped ?rb0) as"
    by simp_all
  from snoc.IH [OF wsas] obtain rb where
    pa: "push_all ?rb0 as = Inr rb" and ok: "rb_ok rb" and sz: "size_rb rb = C"
    and im: "importance_sampling rb = imp" and rw: "row_width rb = L * 2 + O' + 3"
    and ne: "num_elements rb = min ?k C" and ri: "running_index rb = ?k mod C"
    and held: "\<forall>t<?k. ?k \<le> t + C \<longrightarrow> buffer rb ! (t mod C) = pushed_row ?rb0 (as ! t)"
    and zero: "\<forall>j<C. ?k \<le> j \<longrightarrow> buffer rb ! j = replicate (L * 2 + O' + 3) 0"
    by blast
  have same: "push_elem rb a = push_elem ?rb0 a"
    using im by (simp add: push_elem_def ReplayBuffer_init_def)
  have rw0: "row_width ?rb0 = L * 2 + O' + 3"
    by (simp add: ReplayBuffer_init_def row_width_def)
  have wsa': "well_shaped rb a"
    using wsa rw rw0 same by (auto simp: well_shaped_def split: sum.splits)
  have prow: "pushed_row rb a = pushed_row ?rb0 a"
    using same by (simp add: pushed_row_def)
  from push_well_shaped [OF ok wsa'] obtain rb' where
    p: "push rb a = Inr rb'" and ok': "rb_ok rb'" and sz': "size_rb rb' = C"
    and im': "importance_sampling rb' = imp" and rw': "row_width rb' = L * 2 + O' + 3"
    and buf: "buffer rb' = (buffer rb)[?k mod C := pushed_row ?rb0 a]"
    and ri': "running_index rb' = (?k mod C + 1) mod C"
    and ne': "num_elements rb' = min (min ?k C + 1) C"
    using sz im rw ri ne prow by auto
  have lenb: "length (buffer rb) = C" using ok sz by (simp add: rb_ok_def)
  have pall: "push_all ?rb0 (as @ [a]) = Inr rb'"
    using pa p by (simp add: push_all_append)
  have ne'': "num_elements rb' = min (length (as @ [a])) C"
    using ne' by simp
  have ri'': "running_index rb' = length (as @ [a]) mod C"
    using ri' by (simp add: mod_Suc_eq)
  have held': "\<forall>t<length (as @ [a]). length (as @ [a]) \<le> t + C \<longrightarrow>
                 buffer rb' ! (t mod C) = pushed_row ?rb0 ((as @ [a]) ! t)"
  proof (intro allI impI)
    fix t assume t: "t < length (as @ [a])" and recent: "length (as @ [a]) \<le> t + C"
    show "buffer rb' ! (t mod C) = pushed_row ?rb0 ((as @ [a]) ! t)"
    proof (cases "t = ?k")
      case True
      then show ?thesis using buf lenb C by simp
    next
      case False
      with t have tk: "t < ?k" by simp
      from recent have "?k < t + C" by simp
      with tk have "t mod C \<noteq> ?k mod C" by (rule ring_slot_distinct)
      moreover have "buffer rb ! (t mod C) = pushed_row ?rb0 (as ! t)"
        using held tk recent by simp
      ultimately show ?thesis using buf tk by (simp add: nth_append)
    qed
  qed
  have zero': "\<forall>j<C. length (as @ [a]) \<le> j \<longrightarrow> buffer rb' ! j = replicate (L * 2 + O' + 3) 0"
  proof (intro allI impI)
    fix j assume j: "j < C" and far: "length (as @ [a]) \<le> j"
    then have "?k < j" by simp
    then have "?k mod C \<noteq> j" using j by simp
    then show "buffer rb' ! j = replicate (L * 2 + O' + 3) 0"
      using buf zero j far by simp
  qed
  from pall ok' sz' im' rw' ne'' ri'' held' zero' show ?case by blast
qed

text \<open>
  C3.  \<open>k\<close> calls of \<open>push\<close> that follow the column layout, on a fresh buffer of
  capacity \<open>C\<close>, all return.  For \<open>k \<le> C\<close> the occupancy is \<open>k\<close> and the
  running index \<open>k mod C\<close>.  For \<open>k = C + m\<close> with \<open>m \<ge> 1\<close> the occupancy is
  \<open>C\<close>; the rows \<open>0, \<dots>, m - 1\<close>, the oldest, hold transitions from among the
  \<open>m\<close> newest, and every other row \<open>j\<close> still holds transition \<open>j\<close>, the one
  first written to it.  When \<open>m \<le> C\<close>, row \<open>j < m\<close> holds transition \<open>C + j\<close>,
  so that all the \<open>m\<close> newest are there; beyond that the buffer has gone
  round more than once, all \<open>C\<close> rows are among the overwritten ones, and
  row \<open>j\<close> holds the newest transition that fell on it.  For every \<open>k\<close>, each
  of the last \<open>C\<close> transitions \<open>t\<close> is in row \<open>t mod C\<close>.
\<close>

theorem push_sequence:
  assumes C: "0 < C"
    and ws: "list_all (well_shaped (ReplayBuffer_init C L O' imp prio)) as"
  shows "\<exists>rb. push_all (ReplayBuffer_init C L O' imp prio) as = Inr rb \<and>
           (length as \<le> C \<longrightarrow>
              num_elements rb = length as \<and> running_index rb = length as mod C) \<and>
           (\<forall>m. length as = C + m \<and> 1 \<le> m \<longrightarrow> num_elements rb = C) \<and>
           (\<forall>m j. length as = C + m \<and> 1 \<le> m \<and> m \<le> C \<and> j < m \<longrightarrow>
              buffer rb ! j = pushed_row (ReplayBuffer_init C L O' imp prio) (as ! (C + j))) \<and>
           (\<forall>m j. length as = C + m \<and> 1 \<le> m \<and> m \<le> j \<and> j < C \<longrightarrow>
              buffer rb ! j = pushed_row (ReplayBuffer_init C L O' imp prio) (as ! j)) \<and>
           (\<forall>m j. length as = C + m \<and> 1 \<le> m \<and> j < min m C \<longrightarrow>
              buffer rb ! j =
                pushed_row (ReplayBuffer_init C L O' imp prio)
                  (as ! (C + j + C * ((m - 1 - j) div C)))) \<and>
           running_index rb = length as mod C \<and>
           (\<forall>t<length as. length as \<le> t + C \<longrightarrow>
              buffer rb ! (t mod C) = pushed_row (ReplayBuffer_init C L O' imp prio) (as ! t))"
proof -
  let ?rb0 = "ReplayBuffer_init C L O' imp prio"
  from push_all_ring [OF C ws] obtain rb where
    pa: "push_all ?rb0 as = Inr rb"
    and ne: "num_elements rb = min (length as) C" and ri: "running_index rb = length as mod C"
    and held: "\<forall>t<length as. length as \<le> t + C \<longrightarrow>
                 buffer rb ! (t mod C) = pushed_row ?rb0 (as ! t)"
    by blast
  have a: "length as \<le> C \<longrightarrow> num_elements rb = length as \<and> running_index rb = length as mod C"
    using ne ri by simp
  have b: "\<forall>m. length as = C + m \<and> 1 \<le> m \<longrightarrow> num_elements rb = C"
    using ne by simp
  have c: "\<forall>m j. length as = C + m \<and> 1 \<le> m \<and> m \<le> C \<and> j < m \<longrightarrow>
              buffer rb ! j = pushed_row ?rb0 (as ! (C + j))"
  proof (intro allI impI)
    fix m j assume h: "length as = C + m \<and> 1 \<le> m \<and> m \<le> C \<and> j < m"
    then have "C + j < length as" "length as \<le> (C + j) + C" "(C + j) mod C = j"
      by simp_all
    with held show "buffer rb ! j = pushed_row ?rb0 (as ! (C + j))" by metis
  qed
  have d: "\<forall>m j. length as = C + m \<and> 1 \<le> m \<and> m \<le> j \<and> j < C \<longrightarrow>
              buffer rb ! j = pushed_row ?rb0 (as ! j)"
  proof (intro allI impI)
    fix m j assume h: "length as = C + m \<and> 1 \<le> m \<and> m \<le> j \<and> j < C"
    then have "j < length as" "length as \<le> j + C" "j mod C = j"
      by simp_all
    with held show "buffer rb ! j = pushed_row ?rb0 (as ! j)" by metis
  qed
  have g: "\<forall>m j. length as = C + m \<and> 1 \<le> m \<and> j < min m C \<longrightarrow>
              buffer rb ! j = pushed_row ?rb0 (as ! (C + j + C * ((m - 1 - j) div C)))"
  proof (intro allI impI)
    fix m j assume h: "length as = C + m \<and> 1 \<le> m \<and> j < min m C"
    define q where "q = (m - 1 - j) div C"
    define t where "t = C + j + C * q"
    have q1: "C * q \<le> m - 1 - j" unfolding q_def by simp
    have "(m - 1 - j) mod C < C" using C by simp
    moreover have "C * q + (m - 1 - j) mod C = m - 1 - j"
      unfolding q_def by (rule mult_div_mod_eq)
    ultimately have q2: "m - 1 - j < C * q + C" by linarith
    from h have jm: "j < m" and jC: "j < C" and len: "length as = C + m" by simp_all
    have "t < length as" unfolding t_def using len jm q1 by linarith
    moreover have "length as \<le> t + C" unfolding t_def using len jm q2 by linarith
    moreover have "t mod C = j" unfolding t_def using jC by simp
    ultimately have "buffer rb ! j = pushed_row ?rb0 (as ! t)" using held by metis
    then show "buffer rb ! j = pushed_row ?rb0 (as ! (C + j + C * ((m - 1 - j) div C)))"
      by (simp add: t_def q_def)
  qed
  from pa a b c d g ri held show ?thesis by blast
qed

theorem push_sequence_witness:
  "push_all (ReplayBuffer_init 2 1 1 False False)
     [\<lparr>obs = [1], action = [0], next_obs = [2], reward = [5], terminated = [0],
        importance_sampling_id = None\<rparr>,
      \<lparr>obs = [2], action = [1], next_obs = [3], reward = [6], terminated = [0],
        importance_sampling_id = None\<rparr>,
      \<lparr>obs = [3], action = [4], next_obs = [4], reward = [7], terminated = [1],
        importance_sampling_id = None\<rparr>]
   = Inr \<lparr>size_rb = 2, num_objectives = 1, observation_space_size = 1,
          importance_sampling = False, prioritise_crashes = False,
          buffer = [[3, 4, 4, 7, 1, 0], [2, 1, 3, 6, 0, 0]],
          running_index = 1, num_elements = 2\<rparr> \<and>
   (\<exists>rb. push_all (ReplayBuffer_init 2 1 1 False False)
     [\<lparr>obs = [1], action = [0], next_obs = [2], reward = [5], terminated = [0],
        importance_sampling_id = None\<rparr>,
      \<lparr>obs = [2], action = [1], next_obs = [3], reward = [6], terminated = [0],
        importance_sampling_id = None\<rparr>,
      \<lparr>obs = [3], action = [4], next_obs = [4], reward = [7], terminated = [1],
        importance_sampling_id = None\<rparr>] = Inr rb \<and>
      num_elements rb = 2 \<and> running_index rb = 1 \<and>
      buffer rb ! 0 = [3, 4, 4, 7, 1, 0] \<and> buffer rb ! 1 = [2, 1, 3, 6, 0, 0])"
proof -
  let ?rb0 = "ReplayBuffer_init 2 1 1 False False"
  let ?a0 = "\<lparr>obs = [1], action = [0], next_obs = [2], reward = [5], terminated = [0],
        importance_sampling_id = None :: real list option\<rparr>"
  let ?a1 = "\<lparr>obs = [2], action = [1], next_obs = [3], reward = [6], terminated = [0],
        importance_sampling_id = None :: real list option\<rparr>"
  let ?a2 = "\<lparr>obs = [3], action = [4], next_obs = [4], reward = [7], terminated = [1],
        importance_sampling_id = None :: real list option\<rparr>"
  have C: "0 < (2::nat)" by simp
  have ws: "list_all (well_shaped ?rb0) [?a0, ?a1, ?a2]"
    by (simp add: well_shaped_def push_elem_def ReplayBuffer_init_def row_width_def)
  have rows: "pushed_row ?rb0 ?a2 = [3, 4, 4, 7, 1, 0]" "pushed_row ?rb0 ?a1 = [2, 1, 3, 6, 0, 0]"
    by (simp_all add: pushed_row_def push_elem_def ReplayBuffer_init_def float32_small)
  from push_sequence [OF C ws] obtain rb where
    pa: "push_all ?rb0 [?a0, ?a1, ?a2] = Inr rb"
    and b: "\<forall>m. length [?a0, ?a1, ?a2] = 2 + m \<and> 1 \<le> m \<longrightarrow> num_elements rb = 2"
    and c: "\<forall>m j. length [?a0, ?a1, ?a2] = 2 + m \<and> 1 \<le> m \<and> m \<le> 2 \<and> j < m \<longrightarrow>
              buffer rb ! j = pushed_row ?rb0 ([?a0, ?a1, ?a2] ! (2 + j))"
    and d: "\<forall>m j. length [?a0, ?a1, ?a2] = 2 + m \<and> 1 \<le> m \<and> m \<le> j \<and> j < 2 \<longrightarrow>
              buffer rb ! j = pushed_row ?rb0 ([?a0, ?a1, ?a2] ! j)"
    and ri: "running_index rb = length [?a0, ?a1, ?a2] mod 2"
    by blast
  from b [rule_format, of 1] have ne: "num_elements rb = 2" by simp
  from c [rule_format, of 1 0] rows have r0: "buffer rb ! 0 = [3, 4, 4, 7, 1, 0]" by simp
  from d [rule_format, of 1 1] rows have r1: "buffer rb ! 1 = [2, 1, 3, 6, 0, 0]" by simp
  from ri have ri1: "running_index rb = 1" by simp
  have ev: "push_all ?rb0 [?a0, ?a1, ?a2]
   = Inr \<lparr>size_rb = 2, num_objectives = 1, observation_space_size = 1,
          importance_sampling = False, prioritise_crashes = False,
          buffer = [[3, 4, 4, 7, 1, 0], [2, 1, 3, 6, 0, 0]],
          running_index = 1, num_elements = 2\<rparr>"
    by (simp add: push_def push_elem_def ReplayBuffer_init_def set_row_def
          increment_indices_def row_width_def Let_def eval_nat_numeral float32_small)
  from pa ne ri1 r0 r1 ev show ?thesis by blast
qed

text \<open>
  C4, as the code has it.  On a buffer with observation length \<open>L\<close> and \<open>O\<close>
  objectives, the push of a transition with an observation and a next
  observation of length \<open>L\<close>, one action, \<open>O\<close> rewards and a terminal flag
  returns, and the accessors applied to the row it wrote give back the
  observation, the next observation and the rewards in single precision,
  each value rounded by \<open>float32\<close>, and the terminal flag as it was.  They
  give back the values themselves when these are numbers of single
  precision.  The values are within the range of single precision.
\<close>

theorem push_roundtrip:
  assumes ok: "rb_ok rb"
    and lo: "length ob = observation_space_size rb"
    and ln: "length nob = observation_space_size rb"
    and lr: "length rw = num_objectives rb"
    and isid: "importance_sampling rb \<longrightarrow> (\<exists>i. ident = Some [i])"
    and fin: "list_all (\<lambda>x. \<bar>x\<bar> < 2 ^ 127) (ob @ nob @ rw)"
  shows "\<exists>rb'. push rb \<lparr>obs = ob, action = [act], next_obs = nob, reward = rw,
                         terminated = [if term then 1 else 0],
                         importance_sampling_id = ident\<rparr> = Inr rb' \<and>
           get_observations rb' [buffer rb' ! running_index rb] = [map float32 ob] \<and>
           get_next_obs rb' [buffer rb' ! running_index rb] = [map float32 nob] \<and>
           get_rewards rb' [buffer rb' ! running_index rb] = [map float32 rw] \<and>
           get_termination_flag rb' [buffer rb' ! running_index rb] = [term] \<and>
           (list_all (\<lambda>x. float32 x = x) (ob @ nob @ rw) \<longrightarrow>
              get_observations rb' [buffer rb' ! running_index rb] = [ob] \<and>
              get_next_obs rb' [buffer rb' ! running_index rb] = [nob] \<and>
              get_rewards rb' [buffer rb' ! running_index rb] = [rw])"
proof -
  have ri: "running_index rb < length (buffer rb)" and sz: "size_rb rb \<noteq> 0"
    using ok by (simp_all add: rb_ok_def)
  let ?a = "\<lparr>obs = ob, action = [act], next_obs = nob, reward = rw,
              terminated = [if term then 1 else 0], importance_sampling_id = ident\<rparr>"
  obtain i where e: "push_elem rb ?a = Inr (ob @ [act] @ nob @ rw @ [if term then 1 else 0] @ [i])"
    using isid by (cases "importance_sampling rb") (auto simp: push_elem_def)
  let ?elem = "ob @ [act] @ nob @ rw @ [if term then 1 else 0] @ [i]"
  let ?row = "map float32 ob @ [float32 act] @ map float32 nob @ map float32 rw @
              [float32 (if term then 1 else 0)] @ [float32 i]"
  have len: "length ?elem = row_width rb"
    using lo ln lr by (simp add: row_width_def)
  have m: "map float32 ?elem = ?row" by simp
  obtain rb' where p: "push rb ?a = Inr rb'"
    and b: "buffer rb' = (buffer rb)[running_index rb := map float32 ?elem]"
    and L: "observation_space_size rb' = observation_space_size rb"
    using e len ri sz
    by (auto simp: push_def set_row_def increment_indices_def Let_def)
  have row: "buffer rb' ! running_index rb = ?row"
    using b ri m by simp
  have flag: "float32 (if term then 1 else 0) \<noteq> 0 \<longleftrightarrow> term"
    by (simp add: float32_0 float32_1)
  have 1: "get_observations rb' [buffer rb' ! running_index rb] = [map float32 ob]"
    unfolding row using lo L by (simp add: get_observations_def)
  have 2: "get_next_obs rb' [buffer rb' ! running_index rb] = [map float32 nob]"
    unfolding row using lo ln L by (simp add: get_next_obs_def)
  have 3: "get_rewards rb' [buffer rb' ! running_index rb] = [map float32 rw]"
    unfolding row using lo ln lr L by (simp add: get_rewards_def)
  have 4: "get_termination_flag rb' [buffer rb' ! running_index rb] = [term]"
    unfolding row using lo ln lr L flag
    by (simp add: get_termination_flag_def column_from_end_def nth_append)
  have 5: "list_all (\<lambda>x. float32 x = x) (ob @ nob @ rw) \<longrightarrow>
              get_observations rb' [buffer rb' ! running_index rb] = [ob] \<and>
              get_next_obs rb' [buffer rb' ! running_index rb] = [nob] \<and>
              get_rewards rb' [buffer rb' ! running_index rb] = [rw]"
    using 1 2 3 by (simp add: map_float32_fixed)
  from p 1 2 3 4 5 show ?thesis by blast
qed

theorem push_roundtrip_witness:
  "rb_ok (ReplayBuffer_init 2 2 2 True False) \<and>
   list_all (\<lambda>x. \<bar>x\<bar> < 2 ^ 127) ([1, 2] @ [4, 5] @ [1 / 2, 1 / 4 :: real]) \<and>
   list_all (\<lambda>x. float32 x = x) ([1, 2] @ [4, 5] @ [1 / 2, 1 / 4]) \<and>
   (\<exists>rb'. push (ReplayBuffer_init 2 2 2 True False)
       \<lparr>obs = [1, 2], action = [3], next_obs = [4, 5], reward = [1 / 2, 1 / 4],
        terminated = [if True then 1 else 0], importance_sampling_id = Some [9]\<rparr> = Inr rb' \<and>
      buffer rb' ! 0 = [1, 2, 3, 4, 5, 1 / 2, 1 / 4, 1, 9] \<and>
      get_observations rb' [buffer rb' ! 0] = [[1, 2]] \<and>
      get_next_obs rb' [buffer rb' ! 0] = [[4, 5]] \<and>
      get_rewards rb' [buffer rb' ! 0] = [[1 / 2, 1 / 4]] \<and>
      get_termination_flag rb' [buffer rb' ! 0] = [True])"
proof -
  let ?rb = "ReplayBuffer_init 2 2 2 True False"
  have ok: "rb_ok ?rb" by (rule rb_ok_init) simp
  have ri: "length [1, 2 :: real] = observation_space_size ?rb"
    "length [4, 5 :: real] = observation_space_size ?rb"
    "length [1 / 2, 1 / 4 :: real] = num_objectives ?rb"
    "importance_sampling ?rb \<longrightarrow> (\<exists>i. Some [9 :: real] = Some [i])"
    by (simp_all add: ReplayBuffer_init_def)
  have fin: "list_all (\<lambda>x. \<bar>x\<bar> < 2 ^ 127) ([1, 2] @ [4, 5] @ [1 / 2, 1 / 4 :: real])"
    by simp
  have rep: "list_all (\<lambda>x. float32 x = x) ([1, 2] @ [4, 5] @ [1 / 2, 1 / 4])"
    by (simp add: float32_small)
  have r0: "running_index ?rb = 0" by (simp add: ReplayBuffer_init_def)
  from push_roundtrip [OF ok ri fin, of 3 True] rep obtain rb' where
    p: "push ?rb \<lparr>obs = [1, 2], action = [3], next_obs = [4, 5], reward = [1 / 2, 1 / 4],
        terminated = [if True then 1 else 0], importance_sampling_id = Some [9]\<rparr> = Inr rb'"
    and g: "get_observations rb' [buffer rb' ! 0] = [[1, 2]]"
      "get_next_obs rb' [buffer rb' ! 0] = [[4, 5]]"
      "get_rewards rb' [buffer rb' ! 0] = [[1 / 2, 1 / 4]]"
      "get_termination_flag rb' [buffer rb' ! 0] = [True]"
    unfolding r0 by blast
  from p have "buffer rb' ! 0 = [1, 2, 3, 4, 5, 1 / 2, 1 / 4, 1, 9]"
    by (auto simp: push_def push_elem_def ReplayBuffer_init_def set_row_def
          increment_indices_def row_width_def Let_def eval_nat_numeral float32_small)
  with ok fin rep p g show ?thesis by blast
qed

text \<open>
  C4 as it is stated does not hold: the reward 16777217, which a tensor of
  double precision or of integers holds as it is, comes back as 16777216,
  the nearest number of single precision.
\<close>

theorem push_roundtrip_counterexample:
  "push (ReplayBuffer_init 2 1 1 False False)
     \<lparr>obs = [1], action = [0], next_obs = [2], reward = [16777217],
      terminated = [if False then 1 else 0], importance_sampling_id = None\<rparr>
   = Inr \<lparr>size_rb = 2, num_objectives = 1, observation_space_size = 1,
          importance_sampling = False, prioritise_crashes = False,
          buffer = [[1, 0, 2, 16777216, 0, 0], [0, 0, 0, 0, 0, 0]],
          running_index = 1, num_elements = 1\<rparr> \<and>
   get_rewards
     \<lparr>size_rb = 2, num_objectives = 1, observation_space_size = 1,
      importance_sampling = False, prioritise_crashes = False,
      buffer = [[1, 0, 2, 16777216, 0, 0], [0, 0, 0, 0, 0, 0]],
      running_index = 1, num_elements = 1\<rparr> [[1, 0, 2, 16777216, 0, 0]] = [[16777216]] \<and>
   [[16777216]] \<noteq> [[16777217 :: real]]"
  by (simp add: push_def push_elem_def ReplayBuffer_init_def set_row_def
        increment_indices_def row_width_def Let_def eval_nat_numeral float32_small
        float32_16777217 get_rewards_def)

text \<open>
  C10.  Without importance sampling the identifier that the caller passes has
  no effect on \<open>push\<close>, and the identifier column of the row written is 0.
\<close>

theorem push_discards_id:
  assumes "\<not> importance_sampling rb"
  shows "push rb (a\<lparr>importance_sampling_id := i\<rparr>) = push rb a \<and>
         (\<forall>rb'. push rb a = Inr rb' \<longrightarrow>
            get_importance_sampling_id rb' [buffer rb' ! running_index rb] = [0])"
proof (intro conjI allI impI)
  show "push rb (a\<lparr>importance_sampling_id := i\<rparr>) = push rb a"
    using assms by (simp add: push_def push_elem_def)
next
  fix rb' assume p: "push rb a = Inr rb'"
  from p obtain elem where e: "push_elem rb a = Inr elem"
    and ri: "running_index rb < length (buffer rb)"
    and len: "length elem = row_width rb \<or> length elem = 1"
    and buf: "buffer rb' = (buffer rb)[running_index rb :=
           (if length elem = row_width rb then map float32 elem
            else replicate (row_width rb) (float32 (hd elem)))]"
    by (rule push_buffer)
  from e assms have el: "elem = obs a @ action a @ next_obs a @ reward a @ terminated a @ [0]"
    by (simp add: push_elem_no_is)
  have row: "buffer rb' ! running_index rb =
      (if length elem = row_width rb then map float32 elem
       else replicate (row_width rb) (float32 (hd elem)))"
    using buf ri by simp
  show "get_importance_sampling_id rb' [buffer rb' ! running_index rb] = [0]"
  proof (cases "length elem = row_width rb")
    case True
    have "elem ! (length elem - 1) = 0" and "elem \<noteq> []"
      unfolding el by (simp_all add: nth_append)
    then have "map float32 elem ! (length elem - 1) = 0"
      by (simp add: float32_0)
    with True row show ?thesis
      by (simp add: get_importance_sampling_id_def column_from_end_def)
  next
    case False
    with len have l1: "length elem = 1" by simp
    with el have "elem = [0]" by (cases "obs a"; cases "action a"; cases "next_obs a"; cases "reward a"; cases "terminated a") auto
    with False row row_width_ge3 [of rb] show ?thesis
      by (simp add: get_importance_sampling_id_def column_from_end_def float32_0)
  qed
qed

theorem push_discards_id_witness:
  "\<not> importance_sampling (ReplayBuffer_init 2 1 1 False False) \<and>
   push (ReplayBuffer_init 2 1 1 False False)
     \<lparr>obs = [1], action = [2], next_obs = [3], reward = [4], terminated = [0],
      importance_sampling_id = Some [7]\<rparr>
   = Inr \<lparr>size_rb = 2, num_objectives = 1, observation_space_size = 1,
          importance_sampling = False, prioritise_crashes = False,
          buffer = [[1, 2, 3, 4, 0, 0], [0, 0, 0, 0, 0, 0]],
          running_index = 1, num_elements = 1\<rparr> \<and>
   get_importance_sampling_id
     \<lparr>size_rb = 2, num_objectives = 1, observation_space_size = 1,
      importance_sampling = False, prioritise_crashes = False,
      buffer = [[1, 2, 3, 4, 0, 0], [0, 0, 0, 0, 0, 0]],
      running_index = 1, num_elements = 1\<rparr> [[1, 2, 3, 4, 0, 0]] = [0]"
proof -
  let ?rb = "ReplayBuffer_init 2 1 1 False False"
  let ?a = "\<lparr>obs = [1], action = [2], next_obs = [3], reward = [4], terminated = [0],
      importance_sampling_id = Some [7::real]\<rparr>"
  let ?rb' = "\<lparr>size_rb = 2, num_objectives = 1, observation_space_size = 1,
          importance_sampling = False, prioritise_crashes = False,
          buffer = [[1, 2, 3, 4, 0, 0], [0, 0, 0, 0, 0, 0]],
          running_index = 1, num_elements = 1\<rparr>"
  have h: "\<not> importance_sampling ?rb" by (simp add: ReplayBuffer_init_def)
  have p: "push ?rb ?a = Inr ?rb'"
    by (simp add: push_def push_elem_def ReplayBuffer_init_def set_row_def
          increment_indices_def row_width_def Let_def eval_nat_numeral float32_small)
  have "get_importance_sampling_id ?rb' [buffer ?rb' ! running_index ?rb] = [0]"
    using push_discards_id [OF h, where a = ?a and i = "Some [7]"] p by blast
  then show ?thesis using h p by (simp add: ReplayBuffer_init_def)
qed

subsection \<open>The distribution that sample draws from\<close>

lemma cumsum_from_Nil: "cumsum_from acc xs = [] \<longleftrightarrow> xs = []"
  by (cases xs) simp_all

lemma cumsum_from_last: "xs \<noteq> [] \<Longrightarrow> last (cumsum_from acc xs) = acc + sum_list xs"
proof (induction xs arbitrary: acc)
  case Nil
  then show ?case by simp
next
  case (Cons x xs)
  show ?case
  proof (cases "xs = []")
    case True
    then show ?thesis by simp
  next
    case False
    with Cons.IH [of "acc + x"] show ?thesis
      by (simp add: cumsum_from_Nil algebra_simps)
  qed
qed

lemma cumsum_last: "xs \<noteq> [] \<Longrightarrow> last (cumsum xs) = sum_list xs"
  by (simp add: cumsum_def cumsum_from_last)

lemma sample_weight_pos:
  assumes ok: "rb_ok rb" and i: "i < num_elements rb"
  shows "0 < sample_weight rb i"
proof -
  let ?occ = "take (num_elements rb) (buffer rb)"
  let ?ident = "\<lambda>row::real list. row ! (length row - 1)"
  have len: "length ?occ = num_elements rb" using ok by (simp add: rb_ok_def)
  have "?occ ! i \<in> set ?occ" using i len by (metis nth_mem)
  then have "Min (?ident ` set ?occ) \<le> ?ident (?occ ! i)" by simp
  then have "0 < ?ident (?occ ! i) - Min (?ident ` set ?occ) + 1" by simp
  then show ?thesis by (simp add: sample_weight_def Let_def)
qed

lemma sample_probs_form:
  assumes ok: "rb_ok rb" and n: "1 \<le> num_elements rb"
  shows "\<exists>c. 0 < c \<and>
           sample_probs rb =
             Inr (map (\<lambda>p. p / sum_list (map (\<lambda>i. c * sample_weight rb i) [0..<num_elements rb]))
                    (map (\<lambda>i. c * sample_weight rb i) [0..<num_elements rb]))"
proof -
  let ?n = "num_elements rb"
  let ?occ = "take ?n (buffer rb)"
  let ?ident = "\<lambda>row::real list. row ! (length row - 1)"
  let ?flag = "\<lambda>row::real list. row ! (length row - 2) \<noteq> 0"
  let ?c = "if importance_sampling rb then 1 else 1 / real ?n"
  let ?base = "\<lambda>i. if importance_sampling rb
                     then ?ident (?occ ! i) - Min (?ident ` set ?occ) + 1 else 1 / real ?n"
  let ?probs = "map ?base [0..<?n]"
  let ?probs' = "map (\<lambda>i. ?c * sample_weight rb i) [0..<?n]"
  have len: "length ?occ = ?n" using ok by (simp add: rb_ok_def)
  have c: "0 < ?c" using n by simp
  have ids: "column_from_end 1 ?occ = map ?ident ?occ"
    by (simp add: column_from_end_def)
  have ne: "map ?ident ?occ \<noteq> []" using len n by auto
  have first: "(if importance_sampling rb then compute_importance_sampling_probs rb
                else Inr (replicate ?n (1 / real ?n))) = Inr ?probs"
  proof (cases "importance_sampling rb")
    case True
    have "map (\<lambda>x. x - Min (set (map ?ident ?occ)) + 1) (map ?ident ?occ) = ?probs"
      using True len by (intro nth_equalityI) simp_all
    moreover have "compute_importance_sampling_probs rb =
        Inr (map (\<lambda>x. x - Min (set (map ?ident ?occ)) + 1) (map ?ident ?occ))"
      unfolding compute_importance_sampling_probs_def ids Let_def using ne by simp
    ultimately show ?thesis
      using True by simp
  next
    case False
    have "replicate ?n (1 / real ?n) = ?probs"
      using False by (intro nth_equalityI) simp_all
    with False show ?thesis by simp
  qed
  have flags: "map (\<lambda>x. x \<noteq> 0) (column_from_end 2 ?occ) = map ?flag ?occ"
    by (simp add: column_from_end_def)
  have second: "(if prioritise_crashes rb
                 then map2 (\<lambda>c p. if c then p * 2 else p) (map ?flag ?occ) ?probs
                 else ?probs) = ?probs'"
    using len by (intro nth_equalityI) (auto simp: sample_weight_def Let_def)
  have ne': "?probs' \<noteq> []" using n by auto
  have "sample_probs rb = Inr (map (\<lambda>p. p / last (cumsum ?probs')) ?probs')"
    unfolding sample_probs_def first flags Let_def sum.case second using ne' by simp
  then have "sample_probs rb = Inr (map (\<lambda>p. p / sum_list ?probs') ?probs')"
    using ne' by (simp add: cumsum_last)
  with c show ?thesis by blast
qed

text \<open>
  C5, as the code has it.  On a buffer with at least one element, \<open>sample\<close>
  asks the generator for \<open>max(1, round(sample_size))\<close> indices of occupied
  rows, drawn with the probability vector \<open>p\<close>, and returns the rows at these
  indices.  The entry of \<open>p\<close> for an occupied row is the row's weight divided
  by the sum of the weights of the occupied rows; \<open>p\<close> is positive and sums to
  1.  The weight is \<open>sample_weight\<close>: \<open>prioritise_crashes\<close> doubles the weight
  of a terminal row with and without importance sampling.  The draw is
  numpy's: \<open>choice\<close> is any function that returns as many indices below its
  first argument as it is asked for.
\<close>

theorem sample_distribution:
  assumes ok: "rb_ok rb" and n: "1 \<le> num_elements rb"
    and draw: "\<forall>p k. length (choice (num_elements rb) p k) = k \<and>
                     list_all (\<lambda>i. i < num_elements rb) (choice (num_elements rb) p k)"
  shows "\<exists>p. sample_probs rb = Inr p \<and> length p = num_elements rb \<and>
           (\<forall>i<num_elements rb.
              p ! i = sample_weight rb i / (\<Sum>j<num_elements rb. sample_weight rb j)) \<and>
           (\<forall>i<num_elements rb. 0 < p ! i) \<and> sum_list p = 1 \<and>
           sample choice rb sample_size =
             Inr (map (\<lambda>i. buffer rb ! i)
                    (choice (num_elements rb) p (nat (max 1 (py_round sample_size))))) \<and>
           length (choice (num_elements rb) p (nat (max 1 (py_round sample_size))))
             = nat (max 1 (py_round sample_size)) \<and>
           list_all (\<lambda>i. i < num_elements rb)
             (choice (num_elements rb) p (nat (max 1 (py_round sample_size))))"
proof -
  let ?n = "num_elements rb"
  let ?w = "sample_weight rb"
  from sample_probs_form [OF ok n] obtain c where c: "0 < c"
    and sp: "sample_probs rb =
               Inr (map (\<lambda>p. p / sum_list (map (\<lambda>i. c * ?w i) [0..<?n]))
                      (map (\<lambda>i. c * ?w i) [0..<?n]))"
    by blast
  let ?S = "sum_list (map (\<lambda>i. c * ?w i) [0..<?n])"
  let ?p = "map (\<lambda>p. p / ?S) (map (\<lambda>i. c * ?w i) [0..<?n])"
  have S: "?S = c * (\<Sum>j<?n. ?w j)"
    by (simp add: interv_sum_list_conv_sum_set_nat sum_distrib_left atLeast0LessThan)
  have wpos: "\<And>j. j < ?n \<Longrightarrow> 0 < ?w j" by (rule sample_weight_pos [OF ok])
  have "{..<?n} \<noteq> {}" using n by (auto simp: lessThan_empty_iff)
  then have tot: "0 < (\<Sum>j<?n. ?w j)"
    using wpos by (intro sum_pos) auto
  have Spos: "0 < ?S" unfolding S using c tot by simp
  have len: "length ?p = ?n" by simp
  have val: "\<forall>i<?n. ?p ! i = ?w i / (\<Sum>j<?n. ?w j)"
    using c by (simp add: S)
  have pos: "\<forall>i<?n. 0 < ?p ! i"
    using val wpos tot by simp
  have "sum_list ?p = (\<Sum>i<?n. c * ?w i / ?S)"
    by (simp add: interv_sum_list_conv_sum_set_nat atLeast0LessThan comp_def)
  also have "\<dots> = (\<Sum>i<?n. c * ?w i) / ?S"
    by (simp add: sum_divide_distrib)
  also have "(\<Sum>i<?n. c * ?w i) = ?S"
    by (simp add: interv_sum_list_conv_sum_set_nat atLeast0LessThan)
  finally have one: "sum_list ?p = 1" using Spos by simp
  have smp: "sample choice rb sample_size =
      Inr (map (\<lambda>i. buffer rb ! i) (choice ?n ?p (nat (max 1 (py_round sample_size)))))"
    unfolding sample_def sp by (simp add: Let_def)
  from sp len val pos one smp draw show ?thesis by blast
qed

theorem sample_distribution_witness:
  "rb_ok \<lparr>size_rb = 3, num_objectives = 1, observation_space_size = 1,
          importance_sampling = True, prioritise_crashes = True,
          buffer = [[1, 0, 2, 5, 1, 0], [2, 1, 3, 6, 0, 2], [0, 0, 0, 0, 0, 0]],
          running_index = 2, num_elements = 2\<rparr> \<and>
   sample_probs \<lparr>size_rb = 3, num_objectives = 1, observation_space_size = 1,
          importance_sampling = True, prioritise_crashes = True,
          buffer = [[1, 0, 2, 5, 1, 0], [2, 1, 3, 6, 0, 2], [0, 0, 0, 0, 0, 0]],
          running_index = 2, num_elements = 2\<rparr> = Inr [2 / 5, 3 / 5] \<and>
   sample (\<lambda>n p k. replicate k 0)
        \<lparr>size_rb = 3, num_objectives = 1, observation_space_size = 1,
          importance_sampling = True, prioritise_crashes = True,
          buffer = [[1, 0, 2, 5, 1, 0], [2, 1, 3, 6, 0, 2], [0, 0, 0, 0, 0, 0]],
          running_index = 2, num_elements = 2\<rparr> (5 / 2)
     = Inr [[1, 0, 2, 5, 1, 0], [1, 0, 2, 5, 1, 0]] \<and>
   (\<exists>p. sample_probs \<lparr>size_rb = 3, num_objectives = 1, observation_space_size = 1,
          importance_sampling = True, prioritise_crashes = True,
          buffer = [[1, 0, 2, 5, 1, 0], [2, 1, 3, 6, 0, 2], [0, 0, 0, 0, 0, 0]],
          running_index = 2, num_elements = 2\<rparr> = Inr p \<and>
        p ! 0 = 2 / 5 \<and> p ! 1 = 3 / 5 \<and> sum_list p = 1) \<and>
   (\<exists>p. sample_probs \<lparr>size_rb = 3, num_objectives = 1, observation_space_size = 1,
          importance_sampling = False, prioritise_crashes = True,
          buffer = [[1, 0, 2, 5, 1, 0], [2, 1, 3, 6, 0, 2], [0, 0, 0, 0, 0, 0]],
          running_index = 2, num_elements = 2\<rparr> = Inr p \<and>
        p ! 0 = 2 / 3 \<and> p ! 1 = 1 / 3 \<and> sum_list p = 1)"
proof -
  let ?rb = "\<lparr>size_rb = 3, num_objectives = 1, observation_space_size = 1,
          importance_sampling = True, prioritise_crashes = True,
          buffer = [[1, 0, 2, 5, 1, 0], [2, 1, 3, 6, 0, 2], [0, 0, 0, 0, 0, 0 :: real]],
          running_index = 2, num_elements = 2\<rparr>"
  let ?choice = "\<lambda>(n::nat) (p::real list) (k::nat). replicate k (0::nat)"
  have ok: "rb_ok ?rb" by (simp add: rb_ok_def row_width_def)
  have n: "1 \<le> num_elements ?rb" by simp
  have draw: "\<forall>p k. length (?choice (num_elements ?rb) p k) = k \<and>
                list_all (\<lambda>i. i < num_elements ?rb) (?choice (num_elements ?rb) p k)"
    by (simp add: list_all_length)
  have w: "sample_weight ?rb 0 = 2" "sample_weight ?rb 1 = 3"
    by (simp_all add: sample_weight_def Let_def)
  have tot: "(\<Sum>j<num_elements ?rb. sample_weight ?rb j) = 5"
    using w by (simp add: lessThan_Suc eval_nat_numeral)
  from sample_distribution [OF ok n draw, of "5 / 2"] obtain p where
    sp: "sample_probs ?rb = Inr p"
    and val: "\<forall>i<num_elements ?rb. p ! i =
                sample_weight ?rb i / (\<Sum>j<num_elements ?rb. sample_weight ?rb j)"
    and one: "sum_list p = 1"
    by blast
  from val [rule_format, of 0] w tot have p0: "p ! 0 = 2 / 5" by simp
  from val [rule_format, of 1] w tot have p1: "p ! 1 = 3 / 5" by simp
  have ev: "sample_probs ?rb = Inr [2 / 5, 3 / 5]"
    by (simp add: sample_probs_def compute_importance_sampling_probs_def column_from_end_def
          cumsum_def Let_def)
  have r: "py_round (5 / 2) = 2"
    by (simp add: py_round_def Let_def)
  have smp: "sample ?choice ?rb (5 / 2) = Inr [[1, 0, 2, 5, 1, 0], [1, 0, 2, 5, 1, 0]]"
    unfolding sample_def ev by (simp add: r Let_def eval_nat_numeral)
  let ?rb2 = "\<lparr>size_rb = 3, num_objectives = 1, observation_space_size = 1,
          importance_sampling = False, prioritise_crashes = True,
          buffer = [[1, 0, 2, 5, 1, 0], [2, 1, 3, 6, 0, 2], [0, 0, 0, 0, 0, 0 :: real]],
          running_index = 2, num_elements = 2\<rparr>"
  have ok2: "rb_ok ?rb2" by (simp add: rb_ok_def row_width_def)
  have n2: "1 \<le> num_elements ?rb2" by simp
  have draw2: "\<forall>p k. length (?choice (num_elements ?rb2) p k) = k \<and>
                list_all (\<lambda>i. i < num_elements ?rb2) (?choice (num_elements ?rb2) p k)"
    by (simp add: list_all_length)
  have w2: "sample_weight ?rb2 0 = 2" "sample_weight ?rb2 1 = 1"
    by (simp_all add: sample_weight_def Let_def)
  have tot2: "(\<Sum>j<num_elements ?rb2. sample_weight ?rb2 j) = 3"
    using w2 by (simp add: lessThan_Suc eval_nat_numeral)
  from sample_distribution [OF ok2 n2 draw2, of "5 / 2"] obtain q where
    sq: "sample_probs ?rb2 = Inr q"
    and val2: "\<forall>i<num_elements ?rb2. q ! i =
                sample_weight ?rb2 i / (\<Sum>j<num_elements ?rb2. sample_weight ?rb2 j)"
    and one2: "sum_list q = 1"
    by blast
  from val2 [rule_format, of 0] w2 tot2 have q0: "q ! 0 = 2 / 3" by simp
  from val2 [rule_format, of 1] w2 tot2 have q1: "q ! 1 = 1 / 3" by simp
  from sq q0 q1 one2 have second: "\<exists>p. sample_probs ?rb2 = Inr p \<and>
        p ! 0 = 2 / 3 \<and> p ! 1 = 1 / 3 \<and> sum_list p = 1"
    by blast
  from sp p0 p1 one have first: "\<exists>p. sample_probs ?rb = Inr p \<and>
        p ! 0 = 2 / 5 \<and> p ! 1 = 3 / 5 \<and> sum_list p = 1"
    by blast
  from ok ev smp first second show ?thesis by blast
qed

text \<open>
  C5 as it is stated does not hold: with importance sampling disabled and
  \<open>prioritise_crashes\<close> enabled the stated weight of every row is 1, which
  makes the two occupied rows equally likely, while \<open>sample\<close> draws the
  terminal row with probability 2/3 and the other with 1/3.
\<close>

theorem sample_distribution_counterexample:
  "sample_probs \<lparr>size_rb = 3, num_objectives = 1, observation_space_size = 1,
          importance_sampling = False, prioritise_crashes = True,
          buffer = [[1, 0, 2, 5, 1, 0], [2, 1, 3, 6, 0, 2], [0, 0, 0, 0, 0, 0]],
          running_index = 2, num_elements = 2\<rparr> = Inr [2 / 3, 1 / 3] \<and>
   spec_sample_weight \<lparr>size_rb = 3, num_objectives = 1, observation_space_size = 1,
          importance_sampling = False, prioritise_crashes = True,
          buffer = [[1, 0, 2, 5, 1, 0], [2, 1, 3, 6, 0, 2], [0, 0, 0, 0, 0, 0]],
          running_index = 2, num_elements = 2\<rparr> 0
     / (spec_sample_weight \<lparr>size_rb = 3, num_objectives = 1, observation_space_size = 1,
          importance_sampling = False, prioritise_crashes = True,
          buffer = [[1, 0, 2, 5, 1, 0], [2, 1, 3, 6, 0, 2], [0, 0, 0, 0, 0, 0]],
          running_index = 2, num_elements = 2\<rparr> 0
        + spec_sample_weight \<lparr>size_rb = 3, num_objectives = 1, observation_space_size = 1,
          importance_sampling = False, prioritise_crashes = True,
          buffer = [[1, 0, 2, 5, 1, 0], [2, 1, 3, 6, 0, 2], [0, 0, 0, 0, 0, 0]],
          running_index = 2, num_elements = 2\<rparr> 1) = 1 / 2 \<and>
   (2 / 3 :: real) \<noteq> 1 / 2"
  by (simp add: sample_probs_def column_from_end_def cumsum_def spec_sample_weight_def Let_def
        eval_nat_numeral)

section \<open>Properties of compute_reward_summary\<close>

lemma summary_loop_nth:
  "summary_loop self rewards obj_weights is = Inr out \<Longrightarrow>
     length out = length is \<and>
     (\<forall>k<length is. vehicle_summary self rewards obj_weights (is ! k) = Inr (out ! k))"
proof (induction "is" arbitrary: out)
  case Nil
  then show ?case by simp
next
  case (Cons i "is")
  from Cons.prems obtain s ss where
    v: "vehicle_summary self rewards obj_weights i = Inr s"
    and l: "summary_loop self rewards obj_weights is = Inr ss" and out: "out = s # ss"
    by (auto split: sum.splits)
  from Cons.IH [OF l] have len: "length ss = length is"
    and rest: "\<forall>k<length is. vehicle_summary self rewards obj_weights (is ! k) = Inr (ss ! k)"
    by simp_all
  show ?case
  proof (intro conjI allI impI)
    show "length out = length (i # is)" using out len by simp
  next
    fix k assume "k < length (i # is)"
    then show "vehicle_summary self rewards obj_weights ((i # is) ! k) = Inr (out ! k)"
      using v rest out by (cases k) simp_all
  qed
qed

lemma compute_reward_summary_nth:
  assumes "compute_reward_summary self rewards obj_weights = Inr out"
    and "i < num_controlled_vehicles self"
  shows "vehicle_summary self rewards obj_weights i = Inr (out ! i)"
proof -
  from assms(1) have "summary_loop self rewards obj_weights [0..<num_controlled_vehicles self] = Inr out"
    by (simp add: compute_reward_summary_def split: if_splits)
  from summary_loop_nth [OF this] assms(2) show ?thesis
    by (metis add_0 length_upt minus_nat.diff_0 nth_upt)
qed

text \<open>
  C2.  For a controlled vehicle \<open>i\<close> whose crashed flag is set, the entry \<open>i\<close>
  of the list that \<open>compute_reward_summary\<close> returns is row 0 of the reward
  matrix of vehicle \<open>i\<close> as it is, and the result for the vehicle is the same
  for every weight list, reward structure and number of objectives.
\<close>

theorem crash_short_circuit:
  assumes i: "i < num_controlled_vehicles self"
    and cr: "i < length (dqn_crashed self)" "dqn_crashed self ! i"
  shows "(\<forall>out. compute_reward_summary self rewards obj_weights = Inr out \<longrightarrow>
            (\<exists>ego others. rewards ! i = ego # others \<and> out ! i = ego)) \<and>
         vehicle_summary (self\<lparr>reward_structure := s, dqn_num_objectives := n\<rparr>) rewards W i =
           vehicle_summary self rewards obj_weights i"
proof (intro conjI allI impI)
  fix out assume c: "compute_reward_summary self rewards obj_weights = Inr out"
  from compute_reward_summary_nth [OF c i]
  have "vehicle_summary self rewards obj_weights i = Inr (out ! i)" .
  then show "\<exists>ego others. rewards ! i = ego # others \<and> out ! i = ego"
    using cr by (auto simp: vehicle_summary_def Let_def split: if_splits list.splits)
next
  show "vehicle_summary (self\<lparr>reward_structure := s, dqn_num_objectives := n\<rparr>) rewards W i =
           vehicle_summary self rewards obj_weights i"
    using cr by (simp add: vehicle_summary_def Let_def)
qed

theorem crash_short_circuit_witness:
  "compute_reward_summary
     \<lparr>num_controlled_vehicles = 2, dqn_num_objectives = 2,
      reward_structure = ''mean_reward'', dqn_crashed = [False, True]\<rparr>
     [[[Some 1, Some 2], [Some 3, Some 4], [None, None]],
      [[Some (1 / 2), Some 0], [Some 3, Some 4], [None, None]]]
     [[[Some (1 / 4), Some (3 / 4)], [Some 0, Some 0]],
      [[Some (1 / 4), Some (3 / 4)], [Some 0, Some 0]]]
   = Inr [[Some (7 / 8), Some (7 / 4)], [Some (1 / 2), Some 0]] \<and>
   (\<exists>ego others.
      [[[Some 1, Some 2], [Some 3, Some 4], [None, None]],
       [[Some (1 / 2), Some 0], [Some 3, Some 4], [None, None :: real option]]] ! 1 = ego # others \<and>
      [[Some (7 / 8), Some (7 / 4)], [Some (1 / 2), Some (0 :: real)]] ! 1 = ego)"
proof -
  let ?self = "\<lparr>num_controlled_vehicles = 2, dqn_num_objectives = 2,
      reward_structure = ''mean_reward'', dqn_crashed = [False, True]\<rparr>"
  let ?rewards = "[[[Some 1, Some 2], [Some 3, Some 4], [None, None]],
      [[Some (1 / 2), Some 0], [Some 3, Some 4], [None, None :: real option]]]"
  let ?weights = "[[[Some (1 / 4), Some (3 / 4)], [Some 0, Some 0]],
      [[Some (1 / 4), Some (3 / 4)], [Some 0, Some (0 :: real)]]]"
  have ev: "compute_reward_summary ?self ?rewards ?weights
              = Inr [[Some (7 / 8), Some (7 / 4)], [Some (1 / 2), Some 0]]"
    by (simp add: compute_reward_summary_def vehicle_summary_def stack_def
          equalise_uncontrolled_def trim_rewards_def tensor_mul_def vec_mul_def
          summarise_def mean_dim0_def fmul_def fadd_def fdiv_count_def Let_def
          eval_nat_numeral upt_rec)
  have h: "1 < num_controlled_vehicles ?self" "1 < length (dqn_crashed ?self)"
    "dqn_crashed ?self ! 1"
    by simp_all
  from crash_short_circuit [OF h, of ?rewards ?weights] ev
  have "\<exists>ego others. ?rewards ! 1 = ego # others \<and>
          [[Some (7 / 8), Some (7 / 4)], [Some (1 / 2), Some (0 :: real)]] ! 1 = ego"
    by blast
  with ev show ?thesis by blast
qed

lemma fadd_simps:
  "fadd None b = None" "fadd a None = None" "fadd (Some x) (Some y) = Some (x + y)"
  by (simp_all add: fadd_def split: option.splits)

lemma foldl_fadd_None: "foldl fadd None xs = None"
  by (induction xs) (simp_all add: fadd_simps)

lemma zip_take_left: "length ys \<le> length xs \<Longrightarrow> zip (take (length ys) xs) ys = zip xs ys"
proof (induction ys arbitrary: xs)
  case Nil
  then show ?case by simp
next
  case (Cons y ys)
  then show ?case by (cases xs) simp_all
qed

lemma foldl_fadd_those:
  "foldl fadd (Some a) xs =
     (case those xs of None \<Rightarrow> None | Some ys \<Rightarrow> Some (a + sum_list ys))"
proof (induction xs arbitrary: a)
  case Nil
  then show ?case by simp
next
  case (Cons x xs)
  show ?case
  proof (cases x)
    case None
    then show ?thesis by (simp add: fadd_simps foldl_fadd_None)
  next
    case (Some y)
    then show ?thesis
      using Cons.IH [of "a + y"] by (simp add: fadd_simps add.assoc split: option.splits)
  qed
qed

lemma those_length: "those xs = Some ys \<Longrightarrow> length ys = length xs"
  by (induction xs arbitrary: ys) (auto split: option.splits)

lemma collect_vec_mul:
  assumes "length a = length b"
    and "\<forall>k<length a. length (a ! k) = length (b ! k)"
  shows "collect (map2 vec_mul a b) = Inr (map2 (map2 fmul) a b)"
  using assms
proof (induction a b rule: list_induct2)
  case Nil
  then show ?case by simp
next
  case (Cons x xs y ys)
  from Cons.prems have "length x = length y" by auto
  moreover from Cons.prems have "\<forall>k<length xs. length (xs ! k) = length (ys ! k)" by auto
  ultimately show ?case using Cons.IH by (simp add: vec_mul_def)
qed

lemma mean_dim0_spec:
  assumes "rows \<noteq> []"
  shows "mean_dim0 c rows =
           map (\<lambda>j. case those (map (\<lambda>row. row ! j) rows) of
                       None \<Rightarrow> None
                     | Some xs \<Rightarrow> Some (sum_list xs / real (length xs))) [0..<c]"
proof -
  have "fdiv_count (foldl fadd (Some 0) (map (\<lambda>row. row ! j) rows)) (length rows) =
          (case those (map (\<lambda>row. row ! j) rows) of
             None \<Rightarrow> None | Some xs \<Rightarrow> Some (sum_list xs / real (length xs)))" for j
    using assms
    by (auto simp: foldl_fadd_those fdiv_count_def dest: those_length split: option.splits)
  then show ?thesis by (simp add: mean_dim0_def)
qed

text \<open>
  C6.  For a controlled vehicle that has not crashed, under the reward
  structure \<open>mean_reward\<close>, the aggregated reward is the one obtained by
  replacing every entry of each all-zero weight row by \<open>1/num_objectives\<close>,
  weighting the rewards entry by entry and averaging over the rows.  The
  weight vectors and the reward rows they meet have the same length \<open>c\<close>, and
  the reward rows beyond the weights are not-a-number, as the code asserts.
\<close>

theorem mean_reward_zero_weights:
  assumes i: "i < num_controlled_vehicles self" "i < length rewards"
      "i < length (dqn_crashed self)" "i < length obj_weights"
    and nc: "\<not> dqn_crashed self ! i"
    and st: "reward_structure self = ''mean_reward''"
    and n0: "dqn_num_objectives self \<noteq> 0"
    and w: "obj_weights ! i \<noteq> []" "list_all (\<lambda>row. length row = c) (obj_weights ! i)"
    and r: "length (obj_weights ! i) \<le> length (rewards ! i)"
      "list_all (\<lambda>row. length row = c) (take (length (obj_weights ! i)) (rewards ! i))"
      "list_all (list_all (\<lambda>x. x = None)) (drop (length (obj_weights ! i)) (rewards ! i))"
  shows "vehicle_summary self rewards obj_weights i =
           Inr (spec_mean_reward (dqn_num_objectives self) (rewards ! i) (obj_weights ! i)) \<and>
         (\<forall>out. compute_reward_summary self rewards obj_weights = Inr out \<longrightarrow>
            out ! i = spec_mean_reward (dqn_num_objectives self) (rewards ! i) (obj_weights ! i))"
proof -
  let ?n = "dqn_num_objectives self"
  let ?W = "obj_weights ! i"
  let ?r = "rewards ! i"
  let ?k = "length ?W"
  let ?W' = "equalise_uncontrolled ?n ?W"
  let ?r' = "take ?k ?r"
  let ?wr = "map2 (map2 fmul) ?r' ?W'"
  have stack: "stack ?W = Inr ?W"
    using w by (cases ?W) (auto simp: stack_def list_all_iff)
  have sub: "?W' = map (\<lambda>row. if list_all (\<lambda>x. x = Some 0) row
                       then replicate (length row) (Some (1 / real ?n)) else row) ?W"
    by (simp add: equalise_uncontrolled_def map_replicate_const)
  have lenW': "length ?W' = ?k" by (simp add: equalise_uncontrolled_def)
  have widW': "\<forall>j<?k. length (?W' ! j) = c"
    using w(2) by (simp add: equalise_uncontrolled_def list_all_length)
  have lenr': "length ?r' = ?k" using r(1) by simp
  have widr': "\<forall>j<?k. length (?r' ! j) = c"
    using r(2) lenr' by (simp add: list_all_length)
  have trim: "trim_rewards ?r (length ?W') = Inr ?r'"
    using r(1,3) by (simp add: trim_rewards_def lenW')
  have mul: "tensor_mul ?r' ?W' = Inr ?wr"
    using lenr' lenW' widr' widW' by (simp add: tensor_mul_def collect_vec_mul)
  have k0: "0 < ?k" using w(1) by simp
  have "length ?wr = ?k" using lenr' lenW' by simp
  then have wrne: "?wr \<noteq> []" using k0 by auto
  have "length (?wr ! 0) = c"
    using k0 lenr' lenW' widr' widW' by simp
  then have width: "(case ?wr of [] \<Rightarrow> length (hd ?W') | row # rows \<Rightarrow> length row) = c"
    using wrne by (cases ?wr) auto
  have hdW: "length (hd ?W) = c"
    using w by (cases ?W) auto
  have zip: "map2 (map2 fmul) ?r ?W' = ?wr"
    using zip_take_left [of ?W' ?r] r(1) lenW' by simp
  have v: "vehicle_summary self rewards obj_weights i = Inr (mean_dim0 c ?wr)"
    using i nc st n0 stack trim mul width
    by (simp add: vehicle_summary_def Let_def summarise_def)
  have sp: "spec_mean_reward ?n ?r ?W = mean_dim0 c ?wr"
    unfolding spec_mean_reward_def Let_def sub [symmetric] zip hdW
    using mean_dim0_spec [OF wrne] by simp
  from v sp have 1: "vehicle_summary self rewards obj_weights i = Inr (spec_mean_reward ?n ?r ?W)"
    by simp
  have 2: "\<forall>out. compute_reward_summary self rewards obj_weights = Inr out \<longrightarrow>
            out ! i = spec_mean_reward ?n ?r ?W"
    using compute_reward_summary_nth [OF _ i(1)] 1 by fastforce
  from 1 2 show ?thesis by blast
qed

theorem mean_reward_zero_weights_witness:
  "list_all (\<lambda>x. x = Some 0) ([[Some (1 / 4), Some (3 / 4)], [Some 0, Some (0 :: real)]] ! 1) \<and>
   spec_mean_reward 2 [[Some 1, Some 2], [Some 3, Some 4], [None, None]]
       [[Some (1 / 4), Some (3 / 4)], [Some 0, Some 0]] = [Some (7 / 8), Some (7 / 4)] \<and>
   vehicle_summary
     \<lparr>num_controlled_vehicles = 2, dqn_num_objectives = 2,
      reward_structure = ''mean_reward'', dqn_crashed = [False, True]\<rparr>
     [[[Some 1, Some 2], [Some 3, Some 4], [None, None]],
      [[Some (1 / 2), Some 0], [Some 3, Some 4], [None, None]]]
     [[[Some (1 / 4), Some (3 / 4)], [Some 0, Some 0]],
      [[Some (1 / 4), Some (3 / 4)], [Some 0, Some 0]]] 0
   = Inr [Some (7 / 8), Some (7 / 4)]"
proof -
  let ?self = "\<lparr>num_controlled_vehicles = 2, dqn_num_objectives = 2,
      reward_structure = ''mean_reward'', dqn_crashed = [False, True]\<rparr>"
  let ?rewards = "[[[Some 1, Some 2], [Some 3, Some 4], [None, None]],
      [[Some (1 / 2), Some 0], [Some 3, Some 4], [None, None :: real option]]]"
  let ?weights = "[[[Some (1 / 4), Some (3 / 4)], [Some 0, Some 0]],
      [[Some (1 / 4), Some (3 / 4)], [Some 0, Some (0 :: real)]]]"
  have h: "0 < num_controlled_vehicles ?self" "0 < length ?rewards"
    "0 < length (dqn_crashed ?self)" "0 < length ?weights"
    "\<not> dqn_crashed ?self ! 0" "reward_structure ?self = ''mean_reward''"
    "dqn_num_objectives ?self \<noteq> 0"
    "?weights ! 0 \<noteq> []" "list_all (\<lambda>row. length row = 2) (?weights ! 0)"
    "length (?weights ! 0) \<le> length (?rewards ! 0)"
    "list_all (\<lambda>row. length row = 2) (take (length (?weights ! 0)) (?rewards ! 0))"
    "list_all (list_all (\<lambda>x. x = None)) (drop (length (?weights ! 0)) (?rewards ! 0))"
    by simp_all
  have sp: "spec_mean_reward 2 [[Some 1, Some 2], [Some 3, Some 4], [None, None]]
       [[Some (1 / 4), Some (3 / 4)], [Some 0, Some 0]] = [Some (7 / 8), Some (7 / 4)]"
    by (simp add: spec_mean_reward_def fmul_def Let_def eval_nat_numeral upt_rec)
  from mean_reward_zero_weights [OF h] sp
  have "vehicle_summary ?self ?rewards ?weights 0 = Inr [Some (7 / 8), Some (7 / 4)]"
    by simp
  with sp show ?thesis by simp
qed

section \<open>Properties of DataLogger\<close>


lemma tupleType_positional:
  "tupleType names args [] = (if length args = length names then Inr args else Inl TypeError)"
  by (cases "drop (length args) names") (auto simp: tupleType_def Let_def)

lemma tupleType_error: "tupleType names args kwargs = Inl e \<Longrightarrow> e = TypeError"
  by (auto simp: tupleType_def Let_def split: if_splits)

lemma unpack_error: "unpack v = Inl e \<Longrightarrow> e = TypeError"
  by (cases v) (auto simp: unpack_def)

lemma add_by_list_cases:
  "add_by_list lg v =
     (case unpack v of
        Inl e \<Rightarrow> (lg, Some TypeError)
      | Inr vs \<Rightarrow> if length vs = length (fieldNames lg)
                  then (lg\<lparr>tuple_list := tuple_list lg @ [vs]\<rparr>, None)
                  else (lg, Some TypeError))"
  by (auto simp: add_by_list_def append_row_def tupleType_positional
      dest: unpack_error split: sum.splits)

lemma add_by_params_cases:
  "add_by_params lg args kwargs =
     (case tupleType (fieldNames lg) args kwargs of
        Inl e \<Rightarrow> (lg, Some TypeError)
      | Inr row \<Rightarrow> (lg\<lparr>tuple_list := tuple_list lg @ [row]\<rparr>, None))"
  by (auto simp: add_by_params_def append_row_def dest: tupleType_error split: sum.splits)




section \<open>Properties of the reward logger in train\<close>

lemma add_zero_row:
  "add lg (PNum e # replicate n (PNum 0)) [] =
     (if 1 \<le> n \<and> length (fieldNames lg) = n + 1
      then (lg\<lparr>tuple_list := tuple_list lg @ [PNum e # replicate n (PNum 0)]\<rparr>, None)
      else (lg, Some TypeError))"
proof (cases "n = 0")
  case True
  then show ?thesis
    by (simp add: add_def add_by_list_cases unpack_def)
next
  case False
  then have "add lg (PNum e # replicate n (PNum 0)) [] =
               add_by_params lg (PNum e # replicate n (PNum 0)) []"
    by (simp add: add_def)
  with False show ?thesis
    by (auto simp: add_by_params_cases tupleType_positional)
qed

lemma train_loop_rows:
  "\<exists>rows. tuple_list (fst (train_loop episode n es w lg)) = tuple_list lg @ rows \<and>
          list_all (\<lambda>row. tl row = replicate n (PNum 0)) rows \<and>
          (1 \<le> n \<and> length (fieldNames lg) = n + 1 \<and> (\<forall>e v. episode e v \<noteq> None) \<longrightarrow>
             snd (train_loop episode n es w lg) = Completed \<and>
             rows = map (\<lambda>e. PNum (real e) # replicate n (PNum 0)) es)"
proof (induction es arbitrary: w lg)
  case Nil
  show ?case by simp
next
  case (Cons e es)
  show ?case
  proof (cases "episode e w")
    case None
    then show ?thesis by auto
  next
    case (Some w')
    let ?row = "PNum (real e) # replicate n (PNum 0)"
    show ?thesis
    proof (cases "1 \<le> n \<and> length (fieldNames lg) = n + 1")
      case False
      then have "add lg ?row [] = (lg, Some TypeError)"
        by (subst add_zero_row) auto
      then have "train_loop episode n (e # es) w lg = (lg, Raised TypeError)"
        using Some by simp
      with False show ?thesis by auto
    next
      case True
      let ?lg' = "lg\<lparr>tuple_list := tuple_list lg @ [?row]\<rparr>"
      have "add lg ?row [] = (?lg', None)"
        using True by (subst add_zero_row) auto
      then have step: "train_loop episode n (e # es) w lg = train_loop episode n es w' ?lg'"
        using Some by simp
      from Cons.IH [of w' ?lg'] obtain rows where
        r: "tuple_list (fst (train_loop episode n es w' ?lg')) = tuple_list ?lg' @ rows"
        and z: "list_all (\<lambda>row. tl row = replicate n (PNum 0)) rows"
        and c: "1 \<le> n \<and> length (fieldNames ?lg') = n + 1 \<and> (\<forall>e v. episode e v \<noteq> None) \<longrightarrow>
             snd (train_loop episode n es w' ?lg') = Completed \<and>
             rows = map (\<lambda>e. PNum (real e) # replicate n (PNum 0)) es"
        by blast
      show ?thesis
        unfolding step using r z c by (intro exI [of _ "?row # rows"]) auto
    qed
  qed
qed

text \<open>
  C7.  The rows that a run of \<open>train\<close> appends to the reward logger all have
  0 in every objective column, however the run ends.  When there is at least
  one objective, the logger has one field per objective besides the episode,
  and every episode ends, the run completes and appends one such row for each
  episode number.
\<close>

theorem train_logs_zero_rewards:
  "\<exists>rows. tuple_list (fst (train episode num_episodes n w lg)) = tuple_list lg @ rows \<and>
          list_all (\<lambda>row. tl row = replicate n (PNum 0)) rows \<and>
          (1 \<le> n \<and> length (fieldNames lg) = n + 1 \<and> (\<forall>e v. episode e v \<noteq> None) \<longrightarrow>
             snd (train episode num_episodes n w lg) = Completed \<and>
             rows = map (\<lambda>e. PNum (real e) # replicate n (PNum 0)) [0..<num_episodes])"
  unfolding train_def by (rule train_loop_rows)

theorem train_logs_zero_rewards_witness:
  "train (\<lambda>e v. Some (v + e)) 3 2 (0 :: nat)
      (DataLogger_init ''reward_logger'' [''episode'', ''speed_reward'', ''energy_reward''])
   = (\<lparr>loggerName = ''reward_logger'',
        fieldNames = [''episode'', ''speed_reward'', ''energy_reward''],
        tuple_list = [[PNum 0, PNum 0, PNum 0], [PNum 1, PNum 0, PNum 0],
                      [PNum 2, PNum 0, PNum 0]]\<rparr>, Completed)"
proof -
  let ?ep = "\<lambda>(e::nat) (v::nat). Some (v + e)"
  let ?lg = "DataLogger_init ''reward_logger'' [''episode'', ''speed_reward'', ''energy_reward'']"
  have h: "1 \<le> (2::nat) \<and> length (fieldNames ?lg) = 2 + 1 \<and> (\<forall>e v. ?ep e v \<noteq> None)"
    by (simp add: DataLogger_init_def)
  from train_logs_zero_rewards [of ?ep 3 2 0 ?lg] h obtain rows where
    t: "tuple_list (fst (train ?ep 3 2 0 ?lg)) = tuple_list ?lg @ rows"
    and c: "snd (train ?ep 3 2 0 ?lg) = Completed"
    and r: "rows = map (\<lambda>e. PNum (real e) # replicate 2 (PNum 0)) [0..<3]"
    by blast
  have rows: "rows = [[PNum 0, PNum 0, PNum 0], [PNum 1, PNum 0, PNum 0], [PNum 2, PNum 0, PNum 0]]"
    unfolding r by (simp add: eval_nat_numeral upt_rec)
  have ev: "train ?ep 3 2 0 ?lg
   = (\<lparr>loggerName = ''reward_logger'',
        fieldNames = [''episode'', ''speed_reward'', ''energy_reward''],
        tuple_list = [[PNum 0, PNum 0, PNum 0], [PNum 1, PNum 0, PNum 0],
                      [PNum 2, PNum 0, PNum 0]]\<rparr>, Completed)"
    by (simp add: train_def add_def add_by_params_def append_row_def tupleType_def
          DataLogger_init_def Let_def eval_nat_numeral upt_rec)
  from t c rows ev show ?thesis by simp
qed

section \<open>Properties of reduce_epsilon\<close>

lemma float64_start: "float64 (9 / 10) = 8106479329266893 / 9007199254740992"
  by (subst float64_eval [where e = "- 1"]) (simp_all add: py_round_def Let_def power_int_minus)

lemma float64_step:
  "float64 (float64 (8106479329266893 / 9007199254740992 - 0) / real_of_int 10) =
     3242591731706757 / 36028797018963968"
  by (subst float64_eval [where e = "- 1"], simp_all add: py_round_def Let_def power_int_minus)
     (subst float64_eval [where e = "- 4"], simp_all add: py_round_def Let_def power_int_minus)

lemma reduce_epsilon_1:
  "reduce_epsilon (8106479329266893 / 9007199254740992) 10 (8106479329266893 / 9007199254740992) 0 = Inr (1823957849085051 / 2251799813685248)"
  unfolding reduce_epsilon_def float64_step
  by (subst float64_eval [where e = "- 1"]) (simp_all add: py_round_def Let_def power_int_minus)

lemma reduce_epsilon_2:
  "reduce_epsilon (1823957849085051 / 2251799813685248) 10 (8106479329266893 / 9007199254740992) 0 = Inr (6485183463413515 / 9007199254740992)"
  unfolding reduce_epsilon_def float64_step
  by (subst float64_eval [where e = "- 1"]) (simp_all add: py_round_def Let_def power_int_minus)

lemma reduce_epsilon_3:
  "reduce_epsilon (6485183463413515 / 9007199254740992) 10 (8106479329266893 / 9007199254740992) 0 = Inr (2837267765243413 / 4503599627370496)"
  unfolding reduce_epsilon_def float64_step
  by (subst float64_eval [where e = "- 1"]) (simp_all add: py_round_def Let_def power_int_minus)

lemma reduce_epsilon_4:
  "reduce_epsilon (2837267765243413 / 4503599627370496) 10 (8106479329266893 / 9007199254740992) 0 = Inr (4863887597560137 / 9007199254740992)"
  unfolding reduce_epsilon_def float64_step
  by (subst float64_eval [where e = "- 1"]) (simp_all add: py_round_def Let_def power_int_minus)

lemma reduce_epsilon_5:
  "reduce_epsilon (4863887597560137 / 9007199254740992) 10 (8106479329266893 / 9007199254740992) 0 = Inr (506654958079181 / 1125899906842624)"
  unfolding reduce_epsilon_def float64_step
  by (subst float64_eval [where e = "- 2"]) (simp_all add: py_round_def Let_def power_int_minus)

lemma reduce_epsilon_6:
  "reduce_epsilon (506654958079181 / 1125899906842624) 10 (8106479329266893 / 9007199254740992) 0 = Inr (3242591731706759 / 9007199254740992)"
  unfolding reduce_epsilon_def float64_step
  by (subst float64_eval [where e = "- 2"]) (simp_all add: py_round_def Let_def power_int_minus)

lemma reduce_epsilon_7:
  "reduce_epsilon (3242591731706759 / 9007199254740992) 10 (8106479329266893 / 9007199254740992) 0 = Inr (1215971899390035 / 4503599627370496)"
  unfolding reduce_epsilon_def float64_step
  by (subst float64_eval [where e = "- 2"]) (simp_all add: py_round_def Let_def power_int_minus)

lemma reduce_epsilon_8:
  "reduce_epsilon (1215971899390035 / 4503599627370496) 10 (8106479329266893 / 9007199254740992) 0 = Inr (6485183463413523 / 36028797018963968)"
  unfolding reduce_epsilon_def float64_step
  by (subst float64_eval [where e = "- 3"]) (simp_all add: py_round_def Let_def power_int_minus)

lemma reduce_epsilon_9:
  "reduce_epsilon (6485183463413523 / 36028797018963968) 10 (8106479329266893 / 9007199254740992) 0 = Inr (1621295865853383 / 18014398509481984)"
  unfolding reduce_epsilon_def float64_step
  by (subst float64_eval [where e = "- 4"]) (simp_all add: py_round_def Let_def power_int_minus)

lemma reduce_epsilon_10:
  "reduce_epsilon (1621295865853383 / 18014398509481984) 10 (8106479329266893 / 9007199254740992) 0 = Inr (9 / 36028797018963968)"
  unfolding reduce_epsilon_def float64_step
  by (subst float64_eval [where e = "- 52"]) (simp_all add: py_round_def Let_def power_int_minus)

lemma reduce_epsilon_11:
  "reduce_epsilon (9 / 36028797018963968) 10 (8106479329266893 / 9007199254740992) 0 = Inr (0)"
  unfolding reduce_epsilon_def float64_step
  by (subst float64_eval [where e = "- 4"]) (simp_all add: py_round_def Let_def power_int_minus)

lemma reduce_epsilon_at_zero:
  "reduce_epsilon 0 10 (8106479329266893 / 9007199254740992) 0 = Inr 0"
  unfolding reduce_epsilon_def float64_step
  by (subst float64_eval [where e = "- 4"]) (simp_all add: py_round_def Let_def power_int_minus)


lemmas reduce_epsilon_steps =
  reduce_epsilon_1 reduce_epsilon_2 reduce_epsilon_3 reduce_epsilon_4 reduce_epsilon_5
  reduce_epsilon_6 reduce_epsilon_7 reduce_epsilon_8 reduce_epsilon_9 reduce_epsilon_10
  reduce_epsilon_11

lemma reduce_epsilon_times_add:
  "reduce_epsilon_times (a + b) x m s e =
     (case reduce_epsilon_times a x m s e of
        Inl err \<Rightarrow> Inl err
      | Inr y \<Rightarrow> reduce_epsilon_times b y m s e)"
  by (induction a arbitrary: x) (auto split: sum.splits)

lemma reduce_epsilon_times_zero:
  "reduce_epsilon_times k 0 10 (8106479329266893 / 9007199254740992) 0 = Inr 0"
  by (induction k) (simp_all add: reduce_epsilon_at_zero)

lemma reduce_epsilon_times_nonneg:
  assumes "m \<noteq> 0" and "0 \<le> x"
  shows "\<exists>y. reduce_epsilon_times k x m s 0 = Inr y \<and> 0 \<le> y"
  using assms(2)
proof (induction k arbitrary: x)
  case 0
  then show ?case by simp
next
  case (Suc k)
  let ?y = "max 0 (float64 (x - float64 (float64 (s - 0) / real_of_int m)))"
  have "reduce_epsilon x m s 0 = Inr ?y" using assms(1) by (simp add: reduce_epsilon_def)
  moreover have "0 \<le> ?y" by simp
  ultimately show ?case using Suc.IH [of ?y] by simp
qed

lemma reduce_epsilon_times_10:
  "reduce_epsilon_times 10 (8106479329266893 / 9007199254740992) 10
     (8106479329266893 / 9007199254740992) 0 = Inr (9 / 36028797018963968)"
  by (simp add: eval_nat_numeral reduce_epsilon_steps)

lemma reduce_epsilon_times_11:
  "reduce_epsilon_times 11 (8106479329266893 / 9007199254740992) 10
     (8106479329266893 / 9007199254740992) 0 = Inr 0"
  by (simp add: eval_nat_numeral reduce_epsilon_steps)

text \<open>
  C8, as the code has it.  From \<open>epsilon = 0.9\<close>, with \<open>max_iteration = 10\<close>,
  \<open>eps_start = 0.9\<close> and \<open>eps_end = 0\<close>, ten calls of \<open>reduce_epsilon\<close> leave
  the rounding residue \<open>9 / 2^55\<close>, about \<open>2.5e-16\<close>; the eleventh call gives
  exactly 0, every further call leaves 0, and epsilon is never below 0.
  (\<open>0.9\<close> is the float nearest to \<open>9/10\<close>.)
\<close>

theorem reduce_epsilon_residue:
  "reduce_epsilon_times 10 (float64 (9 / 10)) 10 (float64 (9 / 10)) 0
     = Inr (9 / 36028797018963968) \<and>
   reduce_epsilon_times 11 (float64 (9 / 10)) 10 (float64 (9 / 10)) 0 = Inr 0 \<and>
   (\<forall>k. reduce_epsilon_times (11 + k) (float64 (9 / 10)) 10 (float64 (9 / 10)) 0 = Inr 0) \<and>
   (\<forall>k. \<exists>y. reduce_epsilon_times k (float64 (9 / 10)) 10 (float64 (9 / 10)) 0 = Inr y \<and> 0 \<le> y)"
proof (intro conjI allI)
  show "reduce_epsilon_times 10 (float64 (9 / 10)) 10 (float64 (9 / 10)) 0
          = Inr (9 / 36028797018963968)"
    unfolding float64_start by (rule reduce_epsilon_times_10)
  show "reduce_epsilon_times 11 (float64 (9 / 10)) 10 (float64 (9 / 10)) 0 = Inr 0"
    unfolding float64_start by (rule reduce_epsilon_times_11)
  show "reduce_epsilon_times (11 + k) (float64 (9 / 10)) 10 (float64 (9 / 10)) 0 = Inr 0" for k
    unfolding float64_start reduce_epsilon_times_add reduce_epsilon_times_11
    by (simp add: reduce_epsilon_times_zero)
  show "\<exists>y. reduce_epsilon_times k (float64 (9 / 10)) 10 (float64 (9 / 10)) 0 = Inr y \<and> 0 \<le> y"
    for k
    unfolding float64_start by (rule reduce_epsilon_times_nonneg) simp_all
qed

text \<open>
  C8 as it is stated does not hold: after ten calls epsilon is not exactly 0.
\<close>

theorem reduce_epsilon_counterexample:
  "reduce_epsilon_times 10 (float64 (9 / 10)) 10 (float64 (9 / 10)) 0 \<noteq> Inr 0"
  unfolding float64_start reduce_epsilon_times_10 by simp

end
